theory Spec2Isabelle
  imports Main "HOL-Library.Word"
begin

unbundle bit_operations_syntax

section \<open>The RGB matrix panel driver (RGBmatrixPanelCPLD.cpp) as HOL functions\<close>

text \<open>
  The driver keeps a bit-plane framebuffer in one heap allocation, a pair of pointers into
  it (front and back buffer), a refresh cursor and a few flags. Its collaborators (GPIO
  pins, the SPI transmitter, the interval timer) are only ever called, never read, so each
  call is recorded as an event of a hardware trace, in program order.

  Integers: \<open>uint16_t\<close> and \<open>int16_t\<close> arguments are 16-bit words (\<open>unat\<close> and
  \<open>sint\<close> read them); fields hold the numeric value as \<open>nat\<close>; pointers and byte
  offsets are \<open>int\<close>. Where the source stores a computed value into a narrower
  variable (\<open>int16_t x\<close> in \<open>drawPixel\<close>, \<open>uint32_t bufSize\<close> in \<open>init\<close>,
  the \<open>uint16_t\<close> cursor) the wrap-around is written out.
\<close>

type_synonym u8 = "8 word"
type_synonym u16 = "16 word"
type_synonym u32 = "32 word"
type_synonym addr = int

datatype pin = A0 | D2

datatype timer_id = TIMER3 | TIMER4 | TIMER5 | TIMER6 | TIMER7

datatype hw_event =
    PinMode pin
  | PinSet pin
  | PinReset pin
  | DigitalWrite pin bool
  | SpiBegin
  | SpiSetBitOrder
  | SpiSetClockSpeed nat
  | SpiSetDataMode
  | TimerBegin timer_id nat
  | TimerResetPeriod nat
  | SpiTransfer addr nat

text \<open>
  The object's fields, the file-level globals (\<open>temp\<close>, \<open>displayTimer\<close>, held in
  \<open>timer\<close>; \<open>activePanel\<close> is the one panel modelled) and the world around them: the
  byte-addressed memory \<open>mem\<close>, the timer instances other code has already claimed
  (\<open>in_use\<close>) and the trace of collaborator calls.

  The declaration of \<open>row_size\<close> and \<open>plane_size\<close> is not among the sources (the header
  file predates them); following section 3 of the specification they hold the products the
  constructor computes, without truncation.
\<close>

record panel =
  width :: nat
  height :: nat
  depth :: nat
  row_size :: nat
  plane_size :: nat
  double_buffer_enabled :: bool
  front_buffer :: addr
  back_buffer :: addr
  swap_requested :: bool
  resync_flag :: bool
  row :: nat
  plane :: nat
  rowComplete :: nat
  initStatus :: int
  clr_pin :: pin
  oe_pin :: pin
  temp :: addr
  mem :: "addr \<Rightarrow> u8"
  timer :: "timer_id option"
  in_use :: "timer_id set"
  trace :: "hw_event list"

text \<open>Collaborator calls are appended to the trace in program order.\<close>

definition emits :: "hw_event list \<Rightarrow> panel \<Rightarrow> panel" where
  "emits es s = s\<lparr>trace := trace s @ es\<rparr>"

subsection \<open>Integer conversions\<close>

text \<open>Storing an \<open>int\<close> into an \<open>int16_t\<close>: the value modulo \<open>2^16\<close>, read as two's complement.\<close>

definition to_int16 :: "int \<Rightarrow> int" where
  "to_int16 z = sint (word_of_int z :: u16)"

definition to_uint16 :: "nat \<Rightarrow> nat" where
  "to_uint16 n = n mod 65536"

definition to_uint32 :: "nat \<Rightarrow> nat" where
  "to_uint32 n = n mod 4294967296"

text \<open>
  The C expression \<open>(c & (1 << n)) >> n\<close> on a \<open>uint16_t c\<close>: \<open>c\<close> is promoted to a
  32-bit \<open>int\<close>, and the result (0 or 1) ends up in a byte. The source uses it with
  \<open>n\<close> up to 15 in \<open>drawPixel\<close> and up to \<open>12 + depth - 1\<close> in \<open>fillScreen\<close>.
\<close>

definition cbit :: "u16 \<Rightarrow> nat \<Rightarrow> u8" where
  "cbit c n = ucast (drop_bit n ((ucast c :: u32) AND push_bit n 1))"

subsection \<open>drawPixel\<close>

text \<open>
  One plane's read-modify-write: \<open>*(p) = (*(p) & keep) | (r << (sh+2)) | (g << (sh+1)) | (b << sh)\<close>.
  \<open>sh = 3\<close> and \<open>keep = 0xC7\<close> for the upper half, \<open>sh = 0\<close> and \<open>keep = 0xF8\<close> for the
  lower half.
\<close>

definition put_plane :: "addr \<Rightarrow> u8 \<Rightarrow> nat \<Rightarrow> u16 \<Rightarrow> nat \<Rightarrow> nat \<Rightarrow> nat \<Rightarrow> (addr \<Rightarrow> u8) \<Rightarrow> (addr \<Rightarrow> u8)" where
  "put_plane a keep sh c rb gb bb m =
     m(a := (m a AND keep)
            OR push_bit (sh + 2) (cbit c rb)
            OR push_bit (sh + 1) (cbit c gb)
            OR push_bit sh (cbit c bb))"

text \<open>The four guarded plane writes of one half (\<open>if (depth > 0) ... if (depth > 3) ...\<close>).\<close>

definition put_planes :: "panel \<Rightarrow> int \<Rightarrow> u8 \<Rightarrow> nat \<Rightarrow> u16 \<Rightarrow> (addr \<Rightarrow> u8)" where
  "put_planes s off keep sh c =
     (let m0 = mem s;
          m1 = (if depth s > 0
                then put_plane (back_buffer s + off) keep sh c 15 10 4 m0 else m0);
          m2 = (if depth s > 1
                then put_plane (back_buffer s + int (plane_size s) + off) keep sh c 14 9 3 m1 else m1);
          m3 = (if depth s > 2
                then put_plane (back_buffer s + int (2 * plane_size s) + off) keep sh c 13 8 2 m2 else m2);
          m4 = (if depth s > 3
                then put_plane (back_buffer s + int (3 * plane_size s) + off) keep sh c 12 7 1 m3 else m3)
      in m4)"

definition drawPixel :: "u16 \<Rightarrow> u16 \<Rightarrow> u16 \<Rightarrow> panel \<Rightarrow> panel" where
  "drawPixel x y c s =
     (if 0 \<le> sint y \<and> 0 \<le> sint x \<and> sint y < int (height s) \<and> sint x < int (width s) then
        (let y_int = sint y mod 32;
             panel_row = sint y div 32;
             y_int' = (if panel_row mod 2 = 0 then y_int else 31 - y_int);
             x' = (if panel_row mod 2 = 0
                   then to_int16 (sint x mod int (width s) + panel_row * int (width s))
                   else to_int16 ((int (width s) - 1 - sint x mod int (width s))
                                  + panel_row * int (width s)))
         in if y_int' < 16
            then s\<lparr>mem := put_planes s (y_int' * int (row_size s) + x') 0xC7 3 c\<rparr>
            else s\<lparr>mem := put_planes s ((y_int' - 16) * int (row_size s) + x') 0xF8 0 c\<rparr>)
      else s)"

subsection \<open>fillScreen\<close>

definition memset :: "addr \<Rightarrow> u8 \<Rightarrow> nat \<Rightarrow> (addr \<Rightarrow> u8) \<Rightarrow> (addr \<Rightarrow> u8)" where
  "memset a v n m = (\<lambda>i. if a \<le> i \<and> i < a + int n then v else m i)"

text \<open>The byte \<open>color\<close> computed in the body of the first loop, for loop index \<open>p\<close>.\<close>

definition fill_color :: "u16 \<Rightarrow> nat \<Rightarrow> u8" where
  "fill_color c p =
     (let color = push_bit 2 (cbit c (12 + p));
          color = color OR push_bit 1 (cbit c (7 + p));
          color = color OR cbit c (1 + p);
          color = color OR push_bit 3 color
      in color)"

definition fill_plane :: "panel \<Rightarrow> u16 \<Rightarrow> nat \<Rightarrow> nat \<Rightarrow> (addr \<Rightarrow> u8) \<Rightarrow> (addr \<Rightarrow> u8)" where
  "fill_plane s c bufSize p m =
     memset (back_buffer s + int ((depth s - p - 1) * plane_size s)) (fill_color c p) bufSize m"

definition stamp :: "panel \<Rightarrow> u8 \<Rightarrow> nat \<Rightarrow> (addr \<Rightarrow> u8) \<Rightarrow> (addr \<Rightarrow> u8)" where
  "stamp s v i m =
     (let a = back_buffer s + int (row_size s * i) - 1 in m(a := m a OR v))"

definition fillScreen :: "u16 \<Rightarrow> panel \<Rightarrow> panel" where
  "fillScreen c s =
     (let bufSize = width s * (height s div 2);
          m1 = fold (fill_plane s c bufSize) [0 ..< depth s] (mem s);
          m2 = fold (stamp s (push_bit 6 1)) [1 ..< Suc (depth s * 16)] m1;
          m3 = fold (stamp s (push_bit 7 1)) [1 ..< Suc (depth s * 16)] m2
      in s\<lparr>mem := m3\<rparr>)"

subsection \<open>Construction\<close>

text \<open>
  \<open>malloc\<close> belongs to the C library: its result is a parameter of the model, \<open>0\<close> for
  the null pointer. The object's storage before construction, and the world around it, is
  the parameter \<open>raw\<close>: fields the constructor does not assign keep the value they have there.
\<close>

text \<open>Lines 77 to 85 of \<open>init\<close>: the clear pin is pulsed, the SPI bus is configured.\<close>

definition init_pins_spi :: "panel \<Rightarrow> panel" where
  "init_pins_spi s =
     emits [PinMode (clr_pin s), PinSet (clr_pin s), PinReset (clr_pin s), PinSet (clr_pin s),
            SpiBegin, SpiSetBitOrder, SpiSetClockSpeed 30000000, SpiSetDataMode] s"

text \<open>Lines 87 to 96: both buffers are cleared, with the pointers exchanged in between.\<close>

definition swap_pointers :: "panel \<Rightarrow> panel" where
  "swap_pointers s = s\<lparr>front_buffer := back_buffer s, back_buffer := front_buffer s\<rparr>"

definition init_clear :: "panel \<Rightarrow> panel" where
  "init_clear s =
     (if double_buffer_enabled s then fillScreen 0 (swap_pointers (fillScreen 0 s))
      else fillScreen 0 s)"

text \<open>Lines 100 to 104.\<close>

definition init_finish :: "panel \<Rightarrow> panel" where
  "init_finish s =
     (emits [PinMode (oe_pin s), DigitalWrite (oe_pin s) False] s)
       \<lparr>row := 15, plane := to_uint16 (depth s + 65535)\<rparr>"

text \<open>\<open>init\<close> returns its status (\<open>-1\<close> when the allocation failed, \<open>0\<close> otherwise) next
  to the new state.\<close>

definition init :: "addr \<Rightarrow> panel \<Rightarrow> int \<times> panel" where
  "init malloc_result s =
     (let bufSize = (if double_buffer_enabled s
                     then to_uint32 (2 * depth s * plane_size s)
                     else to_uint32 (depth s * plane_size s));
          front = malloc_result
      in if front = 0 then (-1, s\<lparr>front_buffer := front\<rparr>)
         else
          (let back = (if double_buffer_enabled s then front + int (bufSize div 2) else front);
               s = s\<lparr>front_buffer := front, back_buffer := back\<rparr>;
               s = init_pins_spi s;
               s = init_clear s;
               s = s\<lparr>swap_requested := False\<rparr>;
               s = init_finish s
           in (0, s)))"

text \<open>
  The body the three constructors share (lines 110 to 117): pins, the sizes rounded down to
  multiples of 32, the row and plane sizes, depth and buffering mode. The base-class
  constructor \<open>Adafruit_GFX(x, y)\<close> belongs to another library and touches none of these
  fields.
\<close>

definition set_geometry :: "u16 \<Rightarrow> u16 \<Rightarrow> nat \<Rightarrow> bool \<Rightarrow> panel \<Rightarrow> panel" where
  "set_geometry x y d dbl s =
     s\<lparr>clr_pin := A0, oe_pin := D2,
       width := (unat x div 32) * 32,
       height := (unat y div 32) * 32,
       row_size := ((unat x div 32) * 32) * (((unat y div 32) * 32) div 32),
       plane_size := ((unat x div 32) * 32) * (((unat y div 32) * 32) div 2),
       depth := d,
       double_buffer_enabled := dbl\<rparr>"

definition construct :: "addr \<Rightarrow> panel \<Rightarrow> u16 \<Rightarrow> u16 \<Rightarrow> nat \<Rightarrow> bool \<Rightarrow> panel" where
  "construct malloc_result raw x y d dbl =
     (case init malloc_result (set_geometry x y d dbl raw) of
        (status, s) \<Rightarrow> s\<lparr>initStatus := status\<rparr>)"

text \<open>The three constructors.\<close>

definition RGBmatrixPanelCPLD2 :: "addr \<Rightarrow> panel \<Rightarrow> u16 \<Rightarrow> u16 \<Rightarrow> panel" where
  "RGBmatrixPanelCPLD2 malloc_result raw x y = construct malloc_result raw x y 3 False"

definition RGBmatrixPanelCPLD3 :: "addr \<Rightarrow> panel \<Rightarrow> u16 \<Rightarrow> u16 \<Rightarrow> u16 \<Rightarrow> panel" where
  "RGBmatrixPanelCPLD3 malloc_result raw x y d = construct malloc_result raw x y (unat d) False"

definition RGBmatrixPanelCPLD4 :: "addr \<Rightarrow> panel \<Rightarrow> u16 \<Rightarrow> u16 \<Rightarrow> u16 \<Rightarrow> bool \<Rightarrow> panel" where
  "RGBmatrixPanelCPLD4 malloc_result raw x y d use_double_buffer =
     construct malloc_result raw x y (unat d) use_double_buffer"

subsection \<open>swapBuffers, resync, the completion callback\<close>

definition swapBuffers :: "panel \<Rightarrow> panel" where
  "swapBuffers s =
     (if double_buffer_enabled s then s\<lparr>swap_requested := True\<rparr>
      else s\<lparr>swap_requested := False\<rparr>)"

definition resync :: "panel \<Rightarrow> panel" where
  "resync s = s\<lparr>resync_flag := True\<rparr>"

definition rowCompleteCallback :: "panel \<Rightarrow> panel" where
  "rowCompleteCallback s = s\<lparr>rowComplete := 1\<rparr>"

subsection \<open>updateDisplay: one refresh tick\<close>

text \<open>
  \<open>plane == (depth-1)\<close> compares after promotion to \<open>int\<close>, so it is false for every
  \<open>plane\<close> when \<open>depth\<close> is 0. The shift count \<open>depth-plane-1\<close> is computed in \<open>int\<close>
  as well; the source relies on \<open>plane < depth\<close>, which every tick keeps once it holds.
\<close>

definition set_oe :: "panel \<Rightarrow> panel" where
  "set_oe s = emits [PinSet (oe_pin s)] s"

text \<open>Lines 421 to 433.\<close>

definition frame_boundary :: "panel \<Rightarrow> panel" where
  "frame_boundary s =
     (if row s = 15 \<and> int (plane s) = int (depth s) - 1 then
        (let s = (if resync_flag s
                  then (emits [PinReset (clr_pin s), PinSet (clr_pin s)] s)\<lparr>resync_flag := False\<rparr>
                  else s)
         in if swap_requested s
            then s\<lparr>temp := front_buffer s, front_buffer := back_buffer s,
                   back_buffer := front_buffer s, swap_requested := False\<rparr>
            else s)
      else s)"

text \<open>Line 435.\<close>

definition reprogram_timer :: "panel \<Rightarrow> panel" where
  "reprogram_timer s = emits [TimerResetPeriod (74 * 2 ^ (depth s - plane s - 1))] s"

text \<open>Lines 437 to 446.\<close>

definition advance :: "panel \<Rightarrow> panel" where
  "advance s =
     (if row s = 15 then
        (if int (plane s) = int (depth s) - 1 then s\<lparr>row := 0, plane := 0\<rparr>
         else s\<lparr>row := 0, plane := to_uint16 (plane s + 1)\<rparr>)
      else s\<lparr>row := to_uint16 (row s + 1)\<rparr>)"

text \<open>Lines 448 and 449.\<close>

definition start_transfer :: "panel \<Rightarrow> panel" where
  "start_transfer s =
     emits [SpiTransfer (front_buffer s + int (plane s * plane_size s) + int (row s * row_size s))
              (row_size s),
            PinReset (oe_pin s)] s"

definition updateDisplay :: "panel \<Rightarrow> panel" where
  "updateDisplay s = start_transfer (advance (reprogram_timer (frame_boundary (set_oe s))))"

definition refreshISR :: "panel \<Rightarrow> panel" where
  "refreshISR s = updateDisplay s"

subsection \<open>begin\<close>

text \<open>
  Modelled from the spec: \<open>IntervalTimer::begin\<close> of the SparkIntervalTimer library is not
  among the sources. Section 6 of the specification: "Multiple instances should be tried in
  priority order; success returned." The call claims the named instance for \<open>displayTimer\<close>
  and arms it when no one holds it yet, and returns whether it did.
\<close>

definition timer_begin :: "nat \<Rightarrow> timer_id \<Rightarrow> panel \<Rightarrow> bool \<times> panel" where
  "timer_begin period t s =
     (if t \<in> in_use s then (False, s)
      else (True, emits [TimerBegin t period] (s\<lparr>timer := Some t, in_use := insert t (in_use s)\<rparr>)))"

text \<open>
  \<open>begin\<close> is declared \<open>void\<close>: the model returns the unit value next to the new state.
  Each \<open>if (displayTimer.begin(...) == true) return;\<close> is one level of the cascade.
\<close>

definition begin_refresh :: "panel \<Rightarrow> unit \<times> panel" where
  "begin_refresh s =
     (let s = resync (s\<lparr>rowComplete := 0, row := 15, plane := to_uint16 (depth s + 65535)\<rparr>)
      in case timer_begin 250 TIMER3 s of (True, s') \<Rightarrow> ((), s') | (False, s) \<Rightarrow>
         (case timer_begin 250 TIMER4 s of (True, s') \<Rightarrow> ((), s') | (False, s) \<Rightarrow>
         (case timer_begin 250 TIMER5 s of (True, s') \<Rightarrow> ((), s') | (False, s) \<Rightarrow>
         (case timer_begin 250 TIMER6 s of (True, s') \<Rightarrow> ((), s') | (False, s) \<Rightarrow>
         (case timer_begin 250 TIMER7 s of (True, s') \<Rightarrow> ((), s') | (False, s) \<Rightarrow> ((), s))))))"

subsection \<open>Color444\<close>

text \<open>\<open>((r & 0xF) << 12) | ((g & 0xF) << 7) | ((b & 0xF) << 1)\<close>, computed in \<open>int\<close> and
  returned as \<open>uint16_t\<close>.\<close>

definition Color444 :: "u8 \<Rightarrow> u8 \<Rightarrow> u8 \<Rightarrow> u16" where
  "Color444 r g b =
     ucast (push_bit 12 ((ucast r :: u32) AND 0xF)
            OR push_bit 7 ((ucast g :: u32) AND 0xF)
            OR push_bit 1 ((ucast b :: u32) AND 0xF))"

subsection \<open>Sequences of calls\<close>

datatype call =
    DrawPixel u16 u16 u16
  | FillScreen u16
  | SwapBuffers
  | Resync
  | Begin
  | Tick
  | RowComplete

fun do_call :: "call \<Rightarrow> panel \<Rightarrow> panel" where
  "do_call (DrawPixel x y c) s = drawPixel x y c s"
| "do_call (FillScreen c) s = fillScreen c s"
| "do_call SwapBuffers s = swapBuffers s"
| "do_call Resync s = resync s"
| "do_call Begin s = snd (begin_refresh s)"
| "do_call Tick s = refreshISR s"
| "do_call RowComplete s = rowCompleteCallback s"

definition run :: "call list \<Rightarrow> panel \<Rightarrow> panel" where
  "run cs s = fold do_call cs s"


definition ticks :: "nat \<Rightarrow> panel \<Rightarrow> panel" where
  "ticks n s = run (replicate n Tick) s"

text \<open>The collaborator calls made between an earlier state and a later one.\<close>

definition emitted :: "panel \<Rightarrow> panel \<Rightarrow> hw_event list" where
  "emitted s s' = drop (length (trace s)) (trace s')"

fun periods_of :: "hw_event list \<Rightarrow> nat list" where
  "periods_of [] = []"
| "periods_of (TimerResetPeriod n # es) = n # periods_of es"
| "periods_of (e # es) = periods_of es"

fun bursts_of :: "hw_event list \<Rightarrow> (addr \<times> nat) list" where
  "bursts_of [] = []"
| "bursts_of (SpiTransfer a n # es) = (a, n) # bursts_of es"
| "bursts_of (e # es) = bursts_of es"

text \<open>
  A concrete world to run examples in: zeroed memory, no timer taken, an empty trace, an
  object whose storage is all zero. The heap block of the examples starts at \<open>0x20000000\<close>.
\<close>

definition blank_world :: panel where
  "blank_world = \<lparr>width = 0, height = 0, depth = 0, row_size = 0, plane_size = 0,
     double_buffer_enabled = False, front_buffer = 0, back_buffer = 0,
     swap_requested = False, resync_flag = False, row = 0, plane = 0, rowComplete = 0,
     initStatus = 0, clr_pin = A0, oe_pin = A0, temp = 0, mem = (\<lambda>_. 0),
     timer = None, in_use = {}, trace = []\<rparr>"

definition heap_block :: addr where
  "heap_block = 0x20000000"

section \<open>Notions of the specification\<close>

subsection \<open>Control bits (section 3, invariants 1 and 2)\<close>

text \<open>
  For a buffer starting at \<open>buf\<close>, with \<open>d\<close> planes of \<open>ps\<close> bytes and rows of \<open>rs\<close>
  bytes: bits 6 and 7 of the byte at offset \<open>k * rs - 1\<close> are set for every
  \<open>k \<in> [1, d * 16]\<close>, and bits 6 and 7 of every other byte of the buffer are clear.
\<close>

definition ctrl_ok :: "nat \<Rightarrow> nat \<Rightarrow> nat \<Rightarrow> (addr \<Rightarrow> u8) \<Rightarrow> addr \<Rightarrow> bool" where
  "ctrl_ok d rs ps m buf \<longleftrightarrow>
     (\<forall>k\<in>{1 .. d * 16}. bit (m (buf + int k * int rs - 1)) 6 \<and> bit (m (buf + int k * int rs - 1)) 7) \<and>
     (\<forall>off\<in>{0 ..< int (d * ps)}. (\<forall>k\<in>{1 .. d * 16}. off \<noteq> int k * int rs - 1) \<longrightarrow>
         \<not> bit (m (buf + off)) 6 \<and> \<not> bit (m (buf + off)) 7)"

definition control_bits_ok :: "panel \<Rightarrow> addr \<Rightarrow> bool" where
  "control_bits_ok s buf = ctrl_ok (depth s) (row_size s) (plane_size s) (mem s) buf"

subsection \<open>Where a pixel lives (section 4.1) and how a byte is read (section 3)\<close>

definition in_bounds :: "panel \<Rightarrow> u16 \<Rightarrow> u16 \<Rightarrow> bool" where
  "in_bounds s x y \<longleftrightarrow> 0 \<le> sint x \<and> sint x < int (width s) \<and> 0 \<le> sint y \<and> sint y < int (height s)"

text \<open>\<open>y_int'\<close>: the row inside the 32-row panel, flipped on odd panel rows.\<close>

definition spec_y_int :: "int \<Rightarrow> int" where
  "spec_y_int y = (if even (y div 32) then y mod 32 else 31 - y mod 32)"

text \<open>\<open>x'\<close>: the column in the chain, mirrored on odd panel rows.\<close>

definition spec_column :: "panel \<Rightarrow> int \<Rightarrow> int \<Rightarrow> int" where
  "spec_column s x y =
     (if even (y div 32) then x mod int (width s) + (y div 32) * int (width s)
      else (int (width s) - 1 - x mod int (width s)) + (y div 32) * int (width s))"

definition upper_half :: "int \<Rightarrow> bool" where
  "upper_half y \<longleftrightarrow> spec_y_int y < 16"

definition spec_row :: "int \<Rightarrow> int" where
  "spec_row y = (if upper_half y then spec_y_int y else spec_y_int y - 16)"

text \<open>The byte of plane \<open>p\<close> of the back buffer that holds pixel \<open>(x, y)\<close>.\<close>

definition pixel_addr :: "panel \<Rightarrow> nat \<Rightarrow> int \<Rightarrow> int \<Rightarrow> addr" where
  "pixel_addr s p x y =
     back_buffer s + int (p * plane_size s) + spec_row y * int (row_size s) + spec_column s x y"

datatype channel = Blue | Green | Red

text \<open>Position of a channel inside a pixel's triple, and its most significant bit in 5-6-5.\<close>

fun chan_pos :: "channel \<Rightarrow> nat" where
  "chan_pos Blue = 0"
| "chan_pos Green = 1"
| "chan_pos Red = 2"

fun chan_msb :: "channel \<Rightarrow> nat" where
  "chan_msb Blue = 4"
| "chan_msb Green = 10"
| "chan_msb Red = 15"

definition half_shift :: "int \<Rightarrow> nat" where
  "half_shift y = (if upper_half y then 3 else 0)"

definition pixel_bit :: "panel \<Rightarrow> nat \<Rightarrow> int \<Rightarrow> int \<Rightarrow> channel \<Rightarrow> bool" where
  "pixel_bit s p x y ch = bit (mem s (pixel_addr s p x y)) (half_shift y + chan_pos ch)"

text \<open>The reference decoder: the bits of the planes, plane 0 first, as a number.\<close>

definition decode_pixel :: "panel \<Rightarrow> int \<Rightarrow> int \<Rightarrow> channel \<Rightarrow> nat" where
  "decode_pixel s x y ch =
     fold (\<lambda>p v. 2 * v + of_bool (pixel_bit s p x y ch)) [0 ..< depth s] 0"

text \<open>The top \<open>d\<close> bits of a channel of a 5-6-5 colour.\<close>

definition top_bits :: "nat \<Rightarrow> u16 \<Rightarrow> channel \<Rightarrow> nat" where
  "top_bits d c ch = (unat c div 2 ^ (chan_msb ch + 1 - d)) mod 2 ^ d"

text \<open>The two pixels of a byte: bits 0..2 (lower half) and bits 3..5 (upper half).\<close>

definition lower_pixel :: "u8 \<Rightarrow> u8" where
  "lower_pixel b = take_bit 3 b"

definition upper_pixel :: "u8 \<Rightarrow> u8" where
  "upper_pixel b = take_bit 3 (drop_bit 3 b)"

subsection \<open>The schedule of property P4, and the timers of section 4.4\<close>

definition bcm_schedule :: "nat \<Rightarrow> nat list" where
  "bcm_schedule d = concat (map (\<lambda>p. replicate 16 (74 * 2 ^ (d - 1 - p))) [0 ..< d])"

definition ranked_timers :: "timer_id list" where
  "ranked_timers = [TIMER3, TIMER4, TIMER5, TIMER6, TIMER7]"

section \<open>Auxiliary notions for the proofs\<close>

text \<open>What the constructor fixes once and for all.\<close>

definition geometry_ok :: "panel \<Rightarrow> bool" where
  "geometry_ok s \<longleftrightarrow> 32 dvd height s \<and> row_size s = width s * (height s div 32)
      \<and> plane_size s = width s * (height s div 2)"

text \<open>The two buffer pointers alias, or the buffers lie back to back.\<close>

definition buffers_ok :: "panel \<Rightarrow> bool" where
  "buffers_ok s \<longleftrightarrow> front_buffer s = back_buffer s
      \<or> front_buffer s = back_buffer s + int (depth s * plane_size s)
      \<or> back_buffer s = front_buffer s + int (depth s * plane_size s)"

definition panel_inv :: "panel \<Rightarrow> bool" where
  "panel_inv s \<longleftrightarrow> geometry_ok s \<and> buffers_ok s
      \<and> control_bits_ok s (front_buffer s) \<and> control_bits_ok s (back_buffer s)"

text \<open>The byte a plane write stores, in terms of the three colour bits.\<close>

definition upd_byte :: "u8 \<Rightarrow> u8 \<Rightarrow> nat \<Rightarrow> bool \<Rightarrow> bool \<Rightarrow> bool \<Rightarrow> u8" where
  "upd_byte old keep sh r g b =
     (old AND keep) OR push_bit (sh + 2) (of_bool r) OR push_bit (sh + 1) (of_bool g)
       OR push_bit sh (of_bool b)"

definition begin_prepared :: "panel \<Rightarrow> panel" where
  "begin_prepared s =
     s\<lparr>rowComplete := 0, row := 15, plane := to_uint16 (depth s + 65535), resync_flag := True\<rparr>"

text \<open>The cursor as one number, \<open>plane * 16 + row\<close>.\<close>

definition cursor_index :: "panel \<Rightarrow> nat" where
  "cursor_index s = plane s * 16 + row s"

text \<open>A chain of 513 panels, 64 pixels wide, with one plane: rows of 32832 bytes.\<close>

definition long_chain :: panel where
  "long_chain = RGBmatrixPanelCPLD3 heap_block blank_world 64 16416 1"

text \<open>A cursor inside the frame, for a depth the driver supports.\<close>

definition cursor_ok :: "panel \<Rightarrow> bool" where
  "cursor_ok s \<longleftrightarrow> row s \<le> 15 \<and> plane s < depth s \<and> depth s \<le> 4"

text \<open>The worlds and panels of the examples: a world in which other code holds all five
  timers, the panel of scenario S3, and a panel built by the two-argument constructor.\<close>

definition busy_world :: panel where
  "busy_world = blank_world\<lparr>in_use := {TIMER3, TIMER4, TIMER5, TIMER6, TIMER7}\<rparr>"

definition scenario_S3 :: panel where
  "scenario_S3 = RGBmatrixPanelCPLD3 heap_block blank_world 32 64 3"

definition default_panel :: panel where
  "default_panel = RGBmatrixPanelCPLD2 heap_block blank_world 32 32"

text \<open>
  The byte the specification (sections 4.1 and 4.2) gives for plane \<open>p\<close> of a fill: the
  triple from bits \<open>15 - p\<close>, \<open>10 - p\<close> and \<open>4 - p\<close> of the colour, in both halves.
\<close>

definition spec_fill_byte :: "u16 \<Rightarrow> nat \<Rightarrow> u8" where
  "spec_fill_byte c p =
     (let t = push_bit 2 (of_bool (bit c (15 - p))) OR push_bit 1 (of_bool (bit c (10 - p)))
              OR of_bool (bit c (4 - p))
      in push_bit 3 t OR t)"

section \<open>Bits and bytes\<close>

lemma cbit_bit: "cbit c n = of_bool (bit c n)"
  unfolding cbit_def
  apply (rule bit_eqI)
  apply (auto simp: bit_simps dest: bit_imp_le_length)
  done

lemma to_int16_id: "0 \<le> z \<Longrightarrow> z < 32768 \<Longrightarrow> to_int16 z = z"
  unfolding to_int16_def by (simp add: int_word_sint)

lemma upd_upper_bits:
  "bit (upd_byte old 0xC7 3 r g b) 0 = bit old 0"
  "bit (upd_byte old 0xC7 3 r g b) 1 = bit old 1"
  "bit (upd_byte old 0xC7 3 r g b) (Suc 0) = bit old (Suc 0)"
  "bit (upd_byte old 0xC7 3 r g b) 2 = bit old 2"
  "bit (upd_byte old 0xC7 3 r g b) (Suc (Suc 0)) = bit old (Suc (Suc 0))"
  "bit (upd_byte old 0xC7 3 r g b) 3 = b"
  "bit (upd_byte old 0xC7 3 r g b) 4 = g"
  "bit (upd_byte old 0xC7 3 r g b) 5 = r"
  "bit (upd_byte old 0xC7 3 r g b) 6 = bit old 6"
  "bit (upd_byte old 0xC7 3 r g b) 7 = bit old 7"
  unfolding upd_byte_def
  by (simp_all add: bit_simps)

lemma upd_lower_bits:
  "bit (upd_byte old 0xF8 0 r g b) 0 = b"
  "bit (upd_byte old 0xF8 0 r g b) 1 = g"
  "bit (upd_byte old 0xF8 0 r g b) (Suc 0) = g"
  "bit (upd_byte old 0xF8 0 r g b) 2 = r"
  "bit (upd_byte old 0xF8 0 r g b) (Suc (Suc 0)) = r"
  "bit (upd_byte old 0xF8 0 r g b) 3 = bit old 3"
  "bit (upd_byte old 0xF8 0 r g b) 4 = bit old 4"
  "bit (upd_byte old 0xF8 0 r g b) 5 = bit old 5"
  "bit (upd_byte old 0xF8 0 r g b) 6 = bit old 6"
  "bit (upd_byte old 0xF8 0 r g b) 7 = bit old 7"
  unfolding upd_byte_def
  by (simp_all add: bit_simps)

lemma put_plane_eq:
  "put_plane a keep sh c rb gb bb m = m(a := upd_byte (m a) keep sh (bit c rb) (bit c gb) (bit c bb))"
  unfolding put_plane_def upd_byte_def cbit_bit ..

lemma fill_color_hi: "\<not> bit (fill_color c p) 6" "\<not> bit (fill_color c p) 7"
  unfolding fill_color_def Let_def cbit_bit
  by (simp_all add: bit_simps)

lemma bit_or_C0:
  fixes v :: u8
  shows "bit (v OR 0xC0) 6" "bit (v OR 0xC0) 7"
  by (simp_all add: bit_simps)

section \<open>fillScreen: the memory it leaves\<close>

lemma stamp_fold_Suc:
  "fold (stamp s v) [1 ..< Suc (Suc n)] m = stamp s v (Suc n) (fold (stamp s v) [1 ..< Suc n] m)"
  by simp

lemma bex_upto_Suc: "(\<exists>i\<in>{1 .. Suc n}. P i) \<longleftrightarrow> P (Suc n) \<or> (\<exists>i\<in>{1 .. n}. P i)"
  by (metis atLeastAtMost_iff le_Suc_eq le_refl Suc_le_mono le0 One_nat_def le_SucI)

lemma stamp_fold:
  "fold (stamp s v) [1 ..< Suc n] m a =
     (if \<exists>i\<in>{1 .. n}. a = back_buffer s + int (row_size s * i) - 1 then m a OR v else m a)"
proof (induction n)
  case 0
  then show ?case by simp
next
  case (Suc n)
  let ?F = "fold (stamp s v) [1 ..< Suc n] m"
  let ?ad = "\<lambda>i. back_buffer s + int (row_size s * i) - 1"
  have step: "fold (stamp s v) [1 ..< Suc (Suc n)] m a = (if a = ?ad (Suc n) then ?F a OR v else ?F a)"
    unfolding stamp_fold_Suc by (simp add: stamp_def Let_def)
  have ex: "(\<exists>i\<in>{1 .. Suc n}. a = ?ad i) \<longleftrightarrow> a = ?ad (Suc n) \<or> (\<exists>i\<in>{1 .. n}. a = ?ad i)"
    by (rule bex_upto_Suc)
  show ?case
    unfolding step Suc.IH ex
    by (simp add: or.assoc)
qed

lemma fill_fold:
  assumes "k \<le> depth s"
  shows "fold (fill_plane s c (plane_size s)) [0 ..< k] m a =
     (if back_buffer s + int ((depth s - k) * plane_size s) \<le> a \<and> a < back_buffer s + int (depth s * plane_size s)
      then fill_color c (depth s - 1 - nat ((a - back_buffer s) div int (plane_size s)))
      else m a)"
  using assms
proof (induction k arbitrary: a)
  case 0
  then show ?case by auto
next
  case (Suc k)
  let ?b = "back_buffer s" and ?ps = "plane_size s" and ?d = "depth s"
  let ?F = "fold (fill_plane s c ?ps) [0 ..< k] m"
  from Suc have IH: "?F a = (if ?b + int ((?d - k) * ?ps) \<le> a \<and> a < ?b + int (?d * ?ps)
      then fill_color c (?d - 1 - nat ((a - ?b) div int ?ps)) else m a)" by simp
  define j where "j = ?d - Suc k"
  have dk: "?d - k = Suc j" "?d - Suc k = j" "?d - k - 1 = j" "?d - 1 - j = k"
    using Suc.prems by (simp_all add: j_def)
  have lo: "int (Suc j * ?ps) = int (j * ?ps) + int ?ps" by (simp add: algebra_simps)
  have "Suc j * ?ps \<le> ?d * ?ps" using Suc.prems by (intro mult_le_mono1) (simp add: j_def)
  then have hi: "int (j * ?ps) + int ?ps \<le> int (?d * ?ps)" unfolding lo[symmetric] by (simp only: zle_int)
  have step: "fold (fill_plane s c ?ps) [0 ..< Suc k] m a =
      (if ?b + int (j * ?ps) \<le> a \<and> a < ?b + int (j * ?ps) + int ?ps then fill_color c k else ?F a)"
    by (simp add: fill_plane_def memset_def dk)
  let ?C = "fill_color c (?d - 1 - nat ((a - ?b) div int ?ps))"
  show ?case
  proof (cases "?b + int (j * ?ps) \<le> a \<and> a < ?b + int (j * ?ps) + int ?ps")
    case True
    then have pos: "0 < ?ps" by auto
    have "(a - ?b) div int ?ps = int j"
      using True by (intro int_div_pos_eq[where r = "a - ?b - int (j * ?ps)"]) (auto simp: algebra_simps)
    then have k: "?d - 1 - nat ((a - ?b) div int ?ps) = k" using Suc.prems by (simp add: j_def)
    have inr: "?b + int (j * ?ps) \<le> a \<and> a < ?b + int (?d * ?ps)" using True hi by linarith
    have "fold (fill_plane s c ?ps) [0 ..< Suc k] m a = fill_color c k"
      by (simp only: step True if_True simp_thms)
    also have "\<dots> = (if ?b + int (j * ?ps) \<le> a \<and> a < ?b + int (?d * ?ps) then ?C else m a)"
      by (simp only: inr if_True k simp_thms)
    finally show ?thesis by (simp only: dk)
  next
    case False
    have eq: "(?b + int (Suc j * ?ps) \<le> a \<and> a < ?b + int (?d * ?ps)) \<longleftrightarrow>
          (?b + int (j * ?ps) \<le> a \<and> a < ?b + int (?d * ?ps))"
      using False hi lo by linarith
    have "fold (fill_plane s c ?ps) [0 ..< Suc k] m a = ?F a"
      by (simp only: step False if_False simp_thms)
    also have "\<dots> = (if ?b + int (Suc j * ?ps) \<le> a \<and> a < ?b + int (?d * ?ps) then ?C else m a)"
      by (simp only: IH dk)
    also have "\<dots> = (if ?b + int (j * ?ps) \<le> a \<and> a < ?b + int (?d * ?ps) then ?C else m a)"
      by (simp only: eq)
    finally show ?thesis by (simp only: dk)
  qed
qed

lemma geometry_plane: "geometry_ok s \<Longrightarrow> plane_size s = 16 * row_size s"
  unfolding geometry_ok_def by (auto simp: dvd_def)

lemma fillScreen_mem:
  assumes "geometry_ok s"
  shows "mem (fillScreen c s) a =
    (let v = (if back_buffer s \<le> a \<and> a < back_buffer s + int (depth s * plane_size s)
              then fill_color c (depth s - 1 - nat ((a - back_buffer s) div int (plane_size s)))
              else mem s a)
     in if \<exists>i\<in>{1 .. depth s * 16}. a = back_buffer s + int (row_size s * i) - 1
        then v OR 0xC0 else v)"
proof -
  have ps: "width s * (height s div 2) = plane_size s" using assms by (simp add: geometry_ok_def)
  define m1 where "m1 = fold (fill_plane s c (plane_size s)) [0 ..< depth s] (mem s)"
  define m2 where "m2 = fold (stamp s (push_bit 6 1)) [1 ..< Suc (depth s * 16)] m1"
  define m3 where "m3 = fold (stamp s (push_bit 7 1)) [1 ..< Suc (depth s * 16)] m2"
  have res: "mem (fillScreen c s) = m3"
    unfolding fillScreen_def Let_def ps m3_def m2_def m1_def by simp
  have m1: "m1 a = (if back_buffer s \<le> a \<and> a < back_buffer s + int (depth s * plane_size s)
              then fill_color c (depth s - 1 - nat ((a - back_buffer s) div int (plane_size s)))
              else mem s a)"
    unfolding m1_def using fill_fold[of "depth s" s c "mem s" a] by simp
  have m2: "m2 a = (if \<exists>i\<in>{1 .. depth s * 16}. a = back_buffer s + int (row_size s * i) - 1
                    then m1 a OR push_bit 6 1 else m1 a)"
    unfolding m2_def by (rule stamp_fold)
  have m3: "m3 a = (if \<exists>i\<in>{1 .. depth s * 16}. a = back_buffer s + int (row_size s * i) - 1
                    then m2 a OR push_bit 7 1 else m2 a)"
    unfolding m3_def by (rule stamp_fold)
  have c0: "(x OR push_bit 6 1) OR push_bit 7 1 = x OR 0xC0" for x :: u8
    by (simp add: or.assoc)
  show ?thesis
  proof (cases "\<exists>i\<in>{1 .. depth s * 16}. a = back_buffer s + int (row_size s * i) - 1")
    case True
    then have "m3 a = m1 a OR 0xC0" by (simp only: m3 m2 if_True c0)
    then show ?thesis unfolding res Let_def m1[symmetric] by (simp only: True if_True)
  next
    case False
    then have "m3 a = m1 a" by (simp only: m3 m2 if_False)
    then show ?thesis unfolding res Let_def m1[symmetric] by (simp only: False if_False)
  qed
qed

lemma fillScreen_fields:
  "depth (fillScreen c s) = depth s" "row_size (fillScreen c s) = row_size s"
  "plane_size (fillScreen c s) = plane_size s" "width (fillScreen c s) = width s"
  "height (fillScreen c s) = height s" "front_buffer (fillScreen c s) = front_buffer s"
  "back_buffer (fillScreen c s) = back_buffer s"
  "double_buffer_enabled (fillScreen c s) = double_buffer_enabled s"
  "swap_requested (fillScreen c s) = swap_requested s"
  "row (fillScreen c s) = row s" "plane (fillScreen c s) = plane s"
  "trace (fillScreen c s) = trace s" "oe_pin (fillScreen c s) = oe_pin s"
  "clr_pin (fillScreen c s) = clr_pin s"
  unfolding fillScreen_def Let_def by simp_all

section \<open>The control bits\<close>

lemma ctl_in_region:
  assumes "0 < rs" "1 \<le> k" "k \<le> d * 16"
  shows "0 \<le> int k * int rs - 1" "int k * int rs - 1 < int (d * (16 * rs))"
proof -
  have "1 * 1 \<le> k * rs" using assms by (intro mult_le_mono) auto
  then have "1 \<le> int k * int rs" by (metis mult.right_neutral of_nat_1 of_nat_le_iff of_nat_mult)
  then show "0 \<le> int k * int rs - 1" by simp
  have A: "k * rs \<le> d * (16 * rs)" using mult_le_mono1[OF assms(3), of rs] by (simp add: mult.assoc)
  have "int k * int rs = int (k * rs)" by simp
  also have "\<dots> \<le> int (d * (16 * rs))" using A by (simp only: of_nat_le_iff)
  finally show "int k * int rs - 1 < int (d * (16 * rs))" by linarith
qed

lemma fillScreen_ctrl_back:
  assumes "geometry_ok s"
  shows "control_bits_ok (fillScreen c s) (back_buffer s)"
  unfolding control_bits_ok_def ctrl_ok_def fillScreen_fields
proof (intro conjI ballI impI)
  fix k assume k: "k \<in> {1 .. depth s * 16}"
  let ?a = "back_buffer s + int k * int (row_size s) - 1"
  have "\<exists>i\<in>{1 .. depth s * 16}. ?a = back_buffer s + int (row_size s * i) - 1"
    using k by (intro bexI[of _ k]) (simp_all add: mult.commute)
  then show "bit (mem (fillScreen c s) ?a) 6" "bit (mem (fillScreen c s) ?a) 7"
    unfolding fillScreen_mem[OF assms] Let_def by (simp_all only: if_True bit_or_C0)
next
  fix off assume off: "off \<in> {0 ..< int (depth s * plane_size s)}"
    and nc: "\<forall>k\<in>{1 .. depth s * 16}. off \<noteq> int k * int (row_size s) - 1"
  let ?a = "back_buffer s + off"
  have n: "\<not> (\<exists>i\<in>{1 .. depth s * 16}. ?a = back_buffer s + int (row_size s * i) - 1)"
    using nc by (auto simp: mult.commute)
  have r: "back_buffer s \<le> ?a \<and> ?a < back_buffer s + int (depth s * plane_size s)"
    using off by auto
  have "mem (fillScreen c s) ?a = fill_color c (depth s - 1 - nat ((?a - back_buffer s) div int (plane_size s)))"
    unfolding fillScreen_mem[OF assms] Let_def by (simp only: n r if_True if_False simp_thms)
  then show "\<not> bit (mem (fillScreen c s) ?a) 6" "\<not> bit (mem (fillScreen c s) ?a) 7"
    by (simp_all only: fill_color_hi not_False_eq_True)
qed

lemma fillScreen_outside:
  assumes "geometry_ok s" "0 < row_size s"
    and "a < back_buffer s \<or> back_buffer s + int (depth s * plane_size s) \<le> a"
  shows "mem (fillScreen c s) a = mem s a"
proof -
  have ps: "plane_size s = 16 * row_size s" by (rule geometry_plane[OF assms(1)])
  have n: "\<not> (\<exists>i\<in>{1 .. depth s * 16}. a = back_buffer s + int (row_size s * i) - 1)"
  proof
    assume "\<exists>i\<in>{1 .. depth s * 16}. a = back_buffer s + int (row_size s * i) - 1"
    then obtain i where i: "1 \<le> i" "i \<le> depth s * 16" and a: "a = back_buffer s + int (row_size s * i) - 1"
      by auto
    from ctl_in_region[OF assms(2) i] have "0 \<le> int i * int (row_size s) - 1"
       "int i * int (row_size s) - 1 < int (depth s * plane_size s)" by (simp_all add: ps)
    with a assms(3) show False by (simp add: mult.commute)
  qed
  have r: "\<not> (back_buffer s \<le> a \<and> a < back_buffer s + int (depth s * plane_size s))"
    using assms(3) by auto
  show ?thesis unfolding fillScreen_mem[OF assms(1)] Let_def by (simp only: n r if_False)
qed

lemma ctrl_ok_same_bits:
  assumes "\<And>a. bit (m' a) 6 = bit (m a) 6" "\<And>a. bit (m' a) 7 = bit (m a) 7"
  shows "ctrl_ok d rs ps m' buf = ctrl_ok d rs ps m buf"
  unfolding ctrl_ok_def by (simp only: assms)

lemma ctrl_ok_region_cong:
  assumes rs: "0 < rs" and ps: "ps = 16 * rs"
    and same: "\<And>off. 0 \<le> off \<Longrightarrow> off < int (d * ps) \<Longrightarrow> m' (buf + off) = m (buf + off)"
  shows "ctrl_ok d rs ps m' buf = ctrl_ok d rs ps m buf"
proof -
  have st: "m' (buf + int k * int rs - 1) = m (buf + int k * int rs - 1)" if "k \<in> {1 .. d * 16}" for k
  proof -
    from that have k: "1 \<le> k" "k \<le> d * 16" by auto
    have "m' (buf + (int k * int rs - 1)) = m (buf + (int k * int rs - 1))"
      using ctl_in_region[OF rs k] by (intro same) (simp_all add: ps)
    then show ?thesis by (simp add: algebra_simps)
  qed
  have rg: "m' (buf + off) = m (buf + off)" if "off \<in> {0 ..< int (d * ps)}" for off
    using that by (intro same) auto
  show ?thesis
    unfolding ctrl_ok_def
    apply (rule arg_cong2[where f = "(\<and>)"])
     apply (rule ball_cong[OF refl])
     apply (simp only: st)
    apply (rule ball_cong[OF refl])
    apply (simp only: rg)
    done
qed

lemma control_bits_ok_cong:
  assumes "depth s' = depth s" "row_size s' = row_size s" "plane_size s' = plane_size s" "mem s' = mem s"
  shows "control_bits_ok s' buf = control_bits_ok s buf"
  unfolding control_bits_ok_def assms ..

lemma geometry_ok_cong:
  assumes "width s' = width s" "height s' = height s" "row_size s' = row_size s" "plane_size s' = plane_size s"
  shows "geometry_ok s' = geometry_ok s"
  unfolding geometry_ok_def assms ..

lemma buffers_ok_cong:
  assumes "depth s' = depth s" "plane_size s' = plane_size s"
    "front_buffer s' = front_buffer s" "back_buffer s' = back_buffer s"
  shows "buffers_ok s' = buffers_ok s"
  unfolding buffers_ok_def assms ..

lemma panel_inv_cong:
  assumes "panel_inv s" "width s' = width s" "height s' = height s" "depth s' = depth s"
    "row_size s' = row_size s" "plane_size s' = plane_size s" "mem s' = mem s"
    "front_buffer s' = front_buffer s" "back_buffer s' = back_buffer s"
  shows "panel_inv s'"
proof -
  have "geometry_ok s' = geometry_ok s" by (rule geometry_ok_cong) fact+
  moreover have "buffers_ok s' = buffers_ok s" by (rule buffers_ok_cong) fact+
  moreover have "control_bits_ok s' buf = control_bits_ok s buf" for buf
    by (rule control_bits_ok_cong) fact+
  ultimately show ?thesis using assms(1) unfolding panel_inv_def by (simp only: assms(8,9))
qed

lemma fillScreen_ctrl_other:
  assumes g: "geometry_ok s"
    and far: "buf = back_buffer s + int (depth s * plane_size s) \<or> back_buffer s = buf + int (depth s * plane_size s)"
    and ne: "buf \<noteq> back_buffer s"
  shows "control_bits_ok (fillScreen c s) buf = control_bits_ok s buf"
proof -
  have ps: "plane_size s = 16 * row_size s" by (rule geometry_plane[OF g])
  from far ne have "depth s * plane_size s \<noteq> 0" by auto
  then have rs: "0 < row_size s" using ps by auto
  show ?thesis
    unfolding control_bits_ok_def fillScreen_fields
  proof (rule ctrl_ok_region_cong[OF rs ps])
    fix off :: int assume "0 \<le> off" "off < int (depth s * plane_size s)"
    then have "buf + off < back_buffer s \<or> back_buffer s + int (depth s * plane_size s) \<le> buf + off"
      using far by auto
    then show "mem (fillScreen c s) (buf + off) = mem s (buf + off)"
      by (rule fillScreen_outside[OF g rs])
  qed
qed

lemma fillScreen_inv:
  assumes "panel_inv s"
  shows "panel_inv (fillScreen c s)"
proof -
  from assms have g: "geometry_ok s" and b: "buffers_ok s" and f: "control_bits_ok s (front_buffer s)"
    by (simp_all add: panel_inv_def)
  have g': "geometry_ok (fillScreen c s)"
    using g geometry_ok_cong[of "fillScreen c s" s] by (simp only: fillScreen_fields)
  have b': "buffers_ok (fillScreen c s)"
    using b buffers_ok_cong[of "fillScreen c s" s] by (simp only: fillScreen_fields)
  have bk: "control_bits_ok (fillScreen c s) (back_buffer s)" by (rule fillScreen_ctrl_back[OF g])
  have fr: "control_bits_ok (fillScreen c s) (front_buffer s)"
  proof (cases "front_buffer s = back_buffer s")
    case True
    then show ?thesis using bk by simp
  next
    case False
    with b have "front_buffer s = back_buffer s + int (depth s * plane_size s)
        \<or> back_buffer s = front_buffer s + int (depth s * plane_size s)"
      by (simp add: buffers_ok_def)
    from fillScreen_ctrl_other[OF g this False] f show ?thesis by simp
  qed
  show ?thesis unfolding panel_inv_def fillScreen_fields using g' b' bk fr by simp
qed

section \<open>drawPixel: what a write leaves alone\<close>

lemma put_planes_keeps_upper:
  assumes "n \<in> {0, 1, 2, 6, 7}"
  shows "bit (put_planes s off 0xC7 3 c i) n = bit (mem s i) n"
  using assms unfolding put_planes_def Let_def put_plane_eq
  by (auto simp: upd_upper_bits)

lemma put_planes_keeps_lower:
  assumes "n \<in> {3, 4, 5, 6, 7}"
  shows "bit (put_planes s off 0xF8 0 c i) n = bit (mem s i) n"
  using assms unfolding put_planes_def Let_def put_plane_eq
  by (auto simp: upd_lower_bits)

lemma drawPixel_keeps_control:
  assumes "n \<in> {6, 7}"
  shows "bit (mem (drawPixel x y c s) i) n = bit (mem s i) n"
proof -
  have a: "bit (put_planes s off 0xC7 3 c i) n = bit (mem s i) n" for off
    using assms by (intro put_planes_keeps_upper) auto
  have b: "bit (put_planes s off 0xF8 0 c i) n = bit (mem s i) n" for off
    using assms by (intro put_planes_keeps_lower) auto
  show ?thesis
    unfolding drawPixel_def Let_def by (simp add: a b)
qed

lemma drawPixel_fields:
  "depth (drawPixel x y c s) = depth s" "row_size (drawPixel x y c s) = row_size s"
  "plane_size (drawPixel x y c s) = plane_size s" "width (drawPixel x y c s) = width s"
  "height (drawPixel x y c s) = height s" "front_buffer (drawPixel x y c s) = front_buffer s"
  "back_buffer (drawPixel x y c s) = back_buffer s"
  "double_buffer_enabled (drawPixel x y c s) = double_buffer_enabled s"
  "swap_requested (drawPixel x y c s) = swap_requested s"
  "row (drawPixel x y c s) = row s" "plane (drawPixel x y c s) = plane s"
  "trace (drawPixel x y c s) = trace s"
  unfolding drawPixel_def Let_def by simp_all

lemma drawPixel_ctrl: "control_bits_ok (drawPixel x y c s) buf = control_bits_ok s buf"
  unfolding control_bits_ok_def drawPixel_fields
  by (rule ctrl_ok_same_bits) (simp_all add: drawPixel_keeps_control)

lemma drawPixel_inv:
  assumes "panel_inv s"
  shows "panel_inv (drawPixel x y c s)"
proof -
  have "geometry_ok (drawPixel x y c s) = geometry_ok s"
    by (rule geometry_ok_cong) (simp_all only: drawPixel_fields)
  moreover have "buffers_ok (drawPixel x y c s) = buffers_ok s"
    by (rule buffers_ok_cong) (simp_all only: drawPixel_fields)
  ultimately show ?thesis using assms unfolding panel_inv_def drawPixel_ctrl
    by (simp only: drawPixel_fields)
qed

section \<open>The refresh tick, step by step\<close>

lemma emits_fields:
  "trace (emits es s) = trace s @ es"
  "width (emits es s) = width s" "height (emits es s) = height s" "depth (emits es s) = depth s"
  "row_size (emits es s) = row_size s" "plane_size (emits es s) = plane_size s"
  "double_buffer_enabled (emits es s) = double_buffer_enabled s"
  "front_buffer (emits es s) = front_buffer s" "back_buffer (emits es s) = back_buffer s"
  "swap_requested (emits es s) = swap_requested s" "resync_flag (emits es s) = resync_flag s"
  "row (emits es s) = row s" "plane (emits es s) = plane s" "mem (emits es s) = mem s"
  "oe_pin (emits es s) = oe_pin s" "clr_pin (emits es s) = clr_pin s"
  "timer (emits es s) = timer s" "in_use (emits es s) = in_use s"
  "rowComplete (emits es s) = rowComplete s" "initStatus (emits es s) = initStatus s"
  "temp (emits es s) = temp s"
  unfolding emits_def by simp_all

lemma set_oe_fields:
  "trace (set_oe s) = trace s @ [PinSet (oe_pin s)]"
  "width (set_oe s) = width s" "height (set_oe s) = height s" "depth (set_oe s) = depth s"
  "row_size (set_oe s) = row_size s" "plane_size (set_oe s) = plane_size s"
  "double_buffer_enabled (set_oe s) = double_buffer_enabled s"
  "front_buffer (set_oe s) = front_buffer s" "back_buffer (set_oe s) = back_buffer s"
  "swap_requested (set_oe s) = swap_requested s" "resync_flag (set_oe s) = resync_flag s"
  "row (set_oe s) = row s" "plane (set_oe s) = plane s" "mem (set_oe s) = mem s"
  "oe_pin (set_oe s) = oe_pin s" "clr_pin (set_oe s) = clr_pin s"
  unfolding set_oe_def by (simp_all add: emits_fields)

lemma frame_boundary_fields:
  "width (frame_boundary s) = width s" "height (frame_boundary s) = height s"
  "depth (frame_boundary s) = depth s"
  "row_size (frame_boundary s) = row_size s" "plane_size (frame_boundary s) = plane_size s"
  "double_buffer_enabled (frame_boundary s) = double_buffer_enabled s"
  "row (frame_boundary s) = row s" "plane (frame_boundary s) = plane s"
  "mem (frame_boundary s) = mem s" "oe_pin (frame_boundary s) = oe_pin s"
  unfolding frame_boundary_def Let_def by (simp_all add: emits_fields)

lemma frame_boundary_front:
  "front_buffer (frame_boundary s) =
     (if row s = 15 \<and> int (plane s) = int (depth s) - 1 \<and> swap_requested s
      then back_buffer s else front_buffer s)"
  "back_buffer (frame_boundary s) =
     (if row s = 15 \<and> int (plane s) = int (depth s) - 1 \<and> swap_requested s
      then front_buffer s else back_buffer s)"
  "swap_requested (frame_boundary s) =
     (if row s = 15 \<and> int (plane s) = int (depth s) - 1 then False else swap_requested s)"
  unfolding frame_boundary_def Let_def by (simp_all add: emits_fields)

lemma frame_boundary_trace:
  "trace (frame_boundary s) = trace s @
     (if row s = 15 \<and> int (plane s) = int (depth s) - 1 \<and> resync_flag s
      then [PinReset (clr_pin s), PinSet (clr_pin s)] else [])"
  unfolding frame_boundary_def Let_def by (simp add: emits_fields)

lemma reprogram_timer_fields:
  "trace (reprogram_timer s) = trace s @ [TimerResetPeriod (74 * 2 ^ (depth s - plane s - 1))]"
  "width (reprogram_timer s) = width s" "height (reprogram_timer s) = height s"
  "depth (reprogram_timer s) = depth s"
  "row_size (reprogram_timer s) = row_size s" "plane_size (reprogram_timer s) = plane_size s"
  "double_buffer_enabled (reprogram_timer s) = double_buffer_enabled s"
  "front_buffer (reprogram_timer s) = front_buffer s" "back_buffer (reprogram_timer s) = back_buffer s"
  "swap_requested (reprogram_timer s) = swap_requested s"
  "row (reprogram_timer s) = row s" "plane (reprogram_timer s) = plane s"
  "mem (reprogram_timer s) = mem s" "oe_pin (reprogram_timer s) = oe_pin s"
  unfolding reprogram_timer_def by (simp_all add: emits_fields)

lemma advance_fields:
  "trace (advance s) = trace s"
  "width (advance s) = width s" "height (advance s) = height s" "depth (advance s) = depth s"
  "row_size (advance s) = row_size s" "plane_size (advance s) = plane_size s"
  "double_buffer_enabled (advance s) = double_buffer_enabled s"
  "front_buffer (advance s) = front_buffer s" "back_buffer (advance s) = back_buffer s"
  "swap_requested (advance s) = swap_requested s"
  "mem (advance s) = mem s" "oe_pin (advance s) = oe_pin s"
  unfolding advance_def by simp_all

lemma advance_cursor:
  "row (advance s) = (if row s = 15 then 0 else to_uint16 (row s + 1))"
  "plane (advance s) = (if row s = 15
      then (if int (plane s) = int (depth s) - 1 then 0 else to_uint16 (plane s + 1))
      else plane s)"
  unfolding advance_def by simp_all

lemma start_transfer_fields:
  "trace (start_transfer s) = trace s @
     [SpiTransfer (front_buffer s + int (plane s * plane_size s) + int (row s * row_size s)) (row_size s),
      PinReset (oe_pin s)]"
  "width (start_transfer s) = width s" "height (start_transfer s) = height s"
  "depth (start_transfer s) = depth s"
  "row_size (start_transfer s) = row_size s" "plane_size (start_transfer s) = plane_size s"
  "double_buffer_enabled (start_transfer s) = double_buffer_enabled s"
  "front_buffer (start_transfer s) = front_buffer s" "back_buffer (start_transfer s) = back_buffer s"
  "swap_requested (start_transfer s) = swap_requested s"
  "row (start_transfer s) = row s" "plane (start_transfer s) = plane s"
  "mem (start_transfer s) = mem s"
  unfolding start_transfer_def by (simp_all add: emits_fields)

lemmas tick_steps = set_oe_fields frame_boundary_fields reprogram_timer_fields advance_fields
  start_transfer_fields

lemma updateDisplay_fields:
  "depth (updateDisplay s) = depth s" "row_size (updateDisplay s) = row_size s"
  "plane_size (updateDisplay s) = plane_size s" "width (updateDisplay s) = width s"
  "height (updateDisplay s) = height s" "mem (updateDisplay s) = mem s"
  "double_buffer_enabled (updateDisplay s) = double_buffer_enabled s"
  unfolding updateDisplay_def by (simp_all only: tick_steps)

lemma updateDisplay_cursor:
  "row (updateDisplay s) = row (advance s)" "plane (updateDisplay s) = plane (advance s)"
  unfolding updateDisplay_def by (simp_all only: tick_steps advance_cursor)

lemma updateDisplay_front:
  "front_buffer (updateDisplay s) =
     (if row s = 15 \<and> int (plane s) = int (depth s) - 1 \<and> swap_requested s
      then back_buffer s else front_buffer s)"
  "back_buffer (updateDisplay s) =
     (if row s = 15 \<and> int (plane s) = int (depth s) - 1 \<and> swap_requested s
      then front_buffer s else back_buffer s)"
  "swap_requested (updateDisplay s) =
     (if row s = 15 \<and> int (plane s) = int (depth s) - 1 then False else swap_requested s)"
  unfolding updateDisplay_def by (simp_all only: tick_steps frame_boundary_front)

lemma updateDisplay_trace:
  "trace (updateDisplay s) = trace s @
     ([PinSet (oe_pin s)] @
      (if row s = 15 \<and> int (plane s) = int (depth s) - 1 \<and> resync_flag s
       then [PinReset (clr_pin s), PinSet (clr_pin s)] else []) @
      [TimerResetPeriod (74 * 2 ^ (depth s - plane s - 1))] @
      [SpiTransfer (front_buffer (updateDisplay s) + int (plane (advance s) * plane_size s)
                     + int (row (advance s) * row_size s)) (row_size s),
       PinReset (oe_pin s)])"
  unfolding updateDisplay_front
  unfolding updateDisplay_def
  by (simp only: tick_steps frame_boundary_front frame_boundary_trace advance_cursor append_assoc)

lemma updateDisplay_inv:
  assumes "panel_inv s"
  shows "panel_inv (updateDisplay s)"
proof -
  have c: "control_bits_ok (updateDisplay s) buf = control_bits_ok s buf" for buf
    by (rule control_bits_ok_cong) (simp_all add: updateDisplay_fields)
  from assms have "geometry_ok s" by (simp only: panel_inv_def)
  then have g: "geometry_ok (updateDisplay s)"
    using geometry_ok_cong[of "updateDisplay s" s] by (simp only: updateDisplay_fields)
  from assms have b: "buffers_ok s" and f: "control_bits_ok s (front_buffer s)"
    and k: "control_bits_ok s (back_buffer s)" by (simp_all only: panel_inv_def)
  show ?thesis
  proof (cases "row s = 15 \<and> int (plane s) = int (depth s) - 1 \<and> swap_requested s")
    case False
    then have "front_buffer (updateDisplay s) = front_buffer s" "back_buffer (updateDisplay s) = back_buffer s"
      by (auto simp add: updateDisplay_front)
    then show ?thesis using g b f k unfolding panel_inv_def c buffers_ok_def updateDisplay_fields
      by simp
  next
    case True
    then have sw: "front_buffer (updateDisplay s) = back_buffer s" "back_buffer (updateDisplay s) = front_buffer s"
      by (auto simp add: updateDisplay_front)
    have "buffers_ok (updateDisplay s)" using b unfolding buffers_ok_def updateDisplay_fields
      by (simp only: sw) argo
    then show ?thesis using g f k unfolding panel_inv_def c
      by (simp add: sw)
  qed
qed

section \<open>The other calls\<close>

lemma swapBuffers_inv: "panel_inv s \<Longrightarrow> panel_inv (swapBuffers s)"
  by (erule panel_inv_cong) (simp_all add: swapBuffers_def)

lemma resync_inv: "panel_inv s \<Longrightarrow> panel_inv (resync s)"
  by (erule panel_inv_cong) (simp_all add: resync_def)

lemma rowComplete_inv: "panel_inv s \<Longrightarrow> panel_inv (rowCompleteCallback s)"
  by (erule panel_inv_cong) (simp_all add: rowCompleteCallback_def)

lemma begin_refresh_find:
  "snd (begin_refresh s) =
     (case find (\<lambda>t. t \<notin> in_use s) ranked_timers of
        None \<Rightarrow> begin_prepared s
      | Some t \<Rightarrow> emits [TimerBegin t 250] ((begin_prepared s)\<lparr>timer := Some t, in_use := insert t (in_use s)\<rparr>))"
  unfolding begin_refresh_def Let_def timer_begin_def resync_def ranked_timers_def begin_prepared_def
  by simp

lemma begin_fields:
  "depth (snd (begin_refresh s)) = depth s" "row_size (snd (begin_refresh s)) = row_size s"
  "plane_size (snd (begin_refresh s)) = plane_size s" "width (snd (begin_refresh s)) = width s"
  "height (snd (begin_refresh s)) = height s" "mem (snd (begin_refresh s)) = mem s"
  "double_buffer_enabled (snd (begin_refresh s)) = double_buffer_enabled s"
  "front_buffer (snd (begin_refresh s)) = front_buffer s"
  "back_buffer (snd (begin_refresh s)) = back_buffer s"
  "swap_requested (snd (begin_refresh s)) = swap_requested s"
  unfolding begin_refresh_find begin_prepared_def
  by (simp_all add: emits_fields split: option.split)

lemma begin_inv: "panel_inv s \<Longrightarrow> panel_inv (snd (begin_refresh s))"
  by (erule panel_inv_cong) (simp_all only: begin_fields)

lemma do_call_inv: "panel_inv s \<Longrightarrow> panel_inv (do_call c s)"
  by (cases c) (simp_all add: drawPixel_inv fillScreen_inv swapBuffers_inv resync_inv begin_inv
      updateDisplay_inv rowComplete_inv refreshISR_def)

lemma run_inv: "panel_inv s \<Longrightarrow> panel_inv (run cs s)"
  unfolding run_def by (induction cs arbitrary: s) (simp_all add: do_call_inv)

section \<open>Construction\<close>

lemma set_geometry_fields:
  "width (set_geometry x y d dbl raw) = (unat x div 32) * 32"
  "height (set_geometry x y d dbl raw) = (unat y div 32) * 32"
  "row_size (set_geometry x y d dbl raw) = ((unat x div 32) * 32) * (unat y div 32)"
  "plane_size (set_geometry x y d dbl raw) = ((unat x div 32) * 32) * ((unat y div 32) * 16)"
  "depth (set_geometry x y d dbl raw) = d"
  "double_buffer_enabled (set_geometry x y d dbl raw) = dbl"
  "mem (set_geometry x y d dbl raw) = mem raw"
  "trace (set_geometry x y d dbl raw) = trace raw"
  "clr_pin (set_geometry x y d dbl raw) = A0" "oe_pin (set_geometry x y d dbl raw) = D2"
  unfolding set_geometry_def by simp_all

lemma set_geometry_ok: "geometry_ok (set_geometry x y d dbl raw)"
  unfolding geometry_ok_def set_geometry_fields by simp

lemma init_pins_spi_fields:
  "width (init_pins_spi s) = width s" "height (init_pins_spi s) = height s"
  "depth (init_pins_spi s) = depth s"
  "row_size (init_pins_spi s) = row_size s" "plane_size (init_pins_spi s) = plane_size s"
  "double_buffer_enabled (init_pins_spi s) = double_buffer_enabled s"
  "front_buffer (init_pins_spi s) = front_buffer s" "back_buffer (init_pins_spi s) = back_buffer s"
  "mem (init_pins_spi s) = mem s"
  unfolding init_pins_spi_def by (simp_all add: emits_fields)

lemma init_clear_fields:
  "width (init_clear s) = width s" "height (init_clear s) = height s"
  "depth (init_clear s) = depth s"
  "row_size (init_clear s) = row_size s" "plane_size (init_clear s) = plane_size s"
  "double_buffer_enabled (init_clear s) = double_buffer_enabled s"
  "front_buffer (init_clear s) = (if double_buffer_enabled s then back_buffer s else front_buffer s)"
  "back_buffer (init_clear s) = (if double_buffer_enabled s then front_buffer s else back_buffer s)"
  unfolding init_clear_def swap_pointers_def by (simp_all add: fillScreen_fields)

lemma init_finish_fields:
  "width (init_finish s) = width s" "height (init_finish s) = height s"
  "depth (init_finish s) = depth s"
  "row_size (init_finish s) = row_size s" "plane_size (init_finish s) = plane_size s"
  "double_buffer_enabled (init_finish s) = double_buffer_enabled s"
  "front_buffer (init_finish s) = front_buffer s" "back_buffer (init_finish s) = back_buffer s"
  "swap_requested (init_finish s) = swap_requested s"
  "mem (init_finish s) = mem s"
  "row (init_finish s) = 15" "plane (init_finish s) = to_uint16 (depth s + 65535)"
  unfolding init_finish_def by (simp_all add: emits_fields)

lemma init_clear_inv:
  assumes g: "geometry_ok s" and b: "buffers_ok s"
    and al: "\<not> double_buffer_enabled s \<Longrightarrow> front_buffer s = back_buffer s"
  shows "panel_inv (init_clear s)"
proof (cases "double_buffer_enabled s")
  case False
  have "control_bits_ok (fillScreen 0 s) (back_buffer s)" by (rule fillScreen_ctrl_back[OF g])
  moreover have "geometry_ok (fillScreen 0 s)"
    using g geometry_ok_cong[of "fillScreen 0 s" s] by (simp only: fillScreen_fields)
  moreover have "buffers_ok (fillScreen 0 s)"
    using b buffers_ok_cong[of "fillScreen 0 s" s] by (simp only: fillScreen_fields)
  ultimately show ?thesis using al[OF False] False
    by (simp add: init_clear_def panel_inv_def fillScreen_fields)
next
  case True
  let ?s1 = "swap_pointers (fillScreen 0 s)"
  have f1: "width ?s1 = width s" "height ?s1 = height s" "row_size ?s1 = row_size s"
    "plane_size ?s1 = plane_size s" "depth ?s1 = depth s"
    "front_buffer ?s1 = back_buffer s" "back_buffer ?s1 = front_buffer s"
    "mem ?s1 = mem (fillScreen 0 s)"
    unfolding swap_pointers_def by (simp_all add: fillScreen_fields)
  have g1: "geometry_ok ?s1" using g geometry_ok_cong[of ?s1 s] by (simp only: f1)
  have b1: "buffers_ok ?s1" using b unfolding buffers_ok_def f1 by argo
  have "control_bits_ok (fillScreen 0 s) (back_buffer s)" by (rule fillScreen_ctrl_back[OF g])
  then have c1: "control_bits_ok ?s1 (front_buffer ?s1)"
    using control_bits_ok_cong[of ?s1 "fillScreen 0 s"] by (simp add: f1 fillScreen_fields)
  have bk: "control_bits_ok (fillScreen 0 ?s1) (back_buffer ?s1)" by (rule fillScreen_ctrl_back[OF g1])
  have fr: "control_bits_ok (fillScreen 0 ?s1) (front_buffer ?s1)"
  proof (cases "front_buffer ?s1 = back_buffer ?s1")
    case True
    then show ?thesis using bk by simp
  next
    case False
    with b1 have "front_buffer ?s1 = back_buffer ?s1 + int (depth ?s1 * plane_size ?s1)
        \<or> back_buffer ?s1 = front_buffer ?s1 + int (depth ?s1 * plane_size ?s1)"
      by (simp add: buffers_ok_def)
    from fillScreen_ctrl_other[OF g1 this False] c1 show ?thesis by simp
  qed
  have g2: "geometry_ok (fillScreen 0 ?s1)"
    using g1 geometry_ok_cong[of "fillScreen 0 ?s1" ?s1] by (simp only: fillScreen_fields)
  have b2: "buffers_ok (fillScreen 0 ?s1)"
    using b1 buffers_ok_cong[of "fillScreen 0 ?s1" ?s1] by (simp only: fillScreen_fields)
  have "init_clear s = fillScreen 0 ?s1" using True by (simp add: init_clear_def)
  then show ?thesis unfolding panel_inv_def using g2 b2 bk fr by (simp add: fillScreen_fields)
qed

lemma construct_ok:
  assumes p: "p \<noteq> 0"
  shows "construct p raw x y d dbl =
     (init_finish ((init_clear (init_pins_spi ((set_geometry x y d dbl raw)
          \<lparr>front_buffer := p,
            back_buffer := (if dbl then p + int (to_uint32 (2 * d * plane_size (set_geometry x y d dbl raw)) div 2)
                            else p)\<rparr>)))
        \<lparr>swap_requested := False\<rparr>))\<lparr>initStatus := 0\<rparr>"
  unfolding construct_def init_def Let_def using p
  by (simp add: set_geometry_fields)

lemma construct_failed:
  "construct 0 raw x y d dbl = (set_geometry x y d dbl raw)\<lparr>front_buffer := 0, initStatus := -1\<rparr>"
  unfolding construct_def init_def Let_def by simp

lemma construct_fields:
  "width (construct p raw x y d dbl) = (unat x div 32) * 32"
  "height (construct p raw x y d dbl) = (unat y div 32) * 32"
  "row_size (construct p raw x y d dbl) = ((unat x div 32) * 32) * (unat y div 32)"
  "plane_size (construct p raw x y d dbl) = ((unat x div 32) * 32) * ((unat y div 32) * 16)"
  "depth (construct p raw x y d dbl) = d"
  "double_buffer_enabled (construct p raw x y d dbl) = dbl"
  "initStatus (construct p raw x y d dbl) = (if p = 0 then - 1 else 0)"
  by (cases "p = 0";
      simp add: construct_ok construct_failed init_finish_fields init_clear_fields
        init_pins_spi_fields set_geometry_fields)+

lemma construct_cursor:
  "p \<noteq> 0 \<Longrightarrow> row (construct p raw x y d dbl) = 15"
  "p \<noteq> 0 \<Longrightarrow> plane (construct p raw x y d dbl) = to_uint16 (d + 65535)"
  "p \<noteq> 0 \<Longrightarrow> swap_requested (construct p raw x y d dbl) = False"
  by (simp_all add: construct_ok init_finish_fields init_clear_fields
        init_pins_spi_fields set_geometry_fields)

lemma construct_buffers:
  assumes "p \<noteq> 0" "dbl \<Longrightarrow> 2 * d * plane_size (construct p raw x y d dbl) < 2 ^ 32"
  shows "front_buffer (construct p raw x y d dbl) =
           (if dbl then p + int (d * plane_size (construct p raw x y d dbl)) else p)"
    and "back_buffer (construct p raw x y d dbl) = p"
proof -
  have "to_uint32 (2 * d * plane_size (set_geometry x y d dbl raw)) div 2
          = d * plane_size (set_geometry x y d dbl raw)" if dbl
    using assms(2)[OF that] by (simp add: to_uint32_def construct_fields set_geometry_fields)
  then show "front_buffer (construct p raw x y d dbl) =
           (if dbl then p + int (d * plane_size (construct p raw x y d dbl)) else p)"
    and "back_buffer (construct p raw x y d dbl) = p"
    using assms(1)
    by (auto simp add: construct_ok init_finish_fields init_clear_fields
        init_pins_spi_fields set_geometry_fields construct_fields)
qed

lemma construct_inv:
  assumes p: "p \<noteq> 0" and fit: "dbl \<Longrightarrow> 2 * d * plane_size (construct p raw x y d dbl) < 2 ^ 32"
  shows "panel_inv (construct p raw x y d dbl)"
proof -
  let ?g = "set_geometry x y d dbl raw"
  let ?bk = "(if dbl then p + int (to_uint32 (2 * d * plane_size ?g) div 2) else p)"
  let ?s1 = "init_pins_spi (?g\<lparr>front_buffer := p, back_buffer := ?bk\<rparr>)"
  have half: "to_uint32 (2 * d * plane_size ?g) div 2 = d * plane_size ?g" if dbl
    using fit[OF that] by (simp add: to_uint32_def construct_fields set_geometry_fields)
  have f1: "width ?s1 = width ?g" "height ?s1 = height ?g" "row_size ?s1 = row_size ?g"
    "plane_size ?s1 = plane_size ?g" "depth ?s1 = d" "double_buffer_enabled ?s1 = dbl"
    "front_buffer ?s1 = p" "back_buffer ?s1 = ?bk"
    by (simp_all add: init_pins_spi_fields set_geometry_fields)
  have g1: "geometry_ok ?s1"
    using set_geometry_ok[of x y d dbl raw] geometry_ok_cong[of ?s1 ?g] by (simp only: f1)
  have b1: "buffers_ok ?s1"
    unfolding buffers_ok_def f1 using half by auto
  have a1: "\<not> double_buffer_enabled ?s1 \<Longrightarrow> front_buffer ?s1 = back_buffer ?s1"
    unfolding f1 by simp
  have inv: "panel_inv (init_clear ?s1)" by (rule init_clear_inv[OF g1 b1 a1])
  show ?thesis
    unfolding construct_ok[OF p]
    by (rule panel_inv_cong[OF inv]) (simp_all add: init_finish_fields)
qed

section \<open>Runs of calls\<close>

lemma run_Nil: "run [] s = s"
  by (simp add: run_def)

lemma run_Cons: "run (c # cs) s = run cs (do_call c s)"
  by (simp add: run_def)

lemma run_append: "run (cs @ cs') s = run cs' (run cs s)"
  by (simp add: run_def)

lemma run_snoc: "run (cs @ [c]) s = do_call c (run cs s)"
  by (simp add: run_def)

lemma run_take_Suc: "i < length cs \<Longrightarrow> run (take (Suc i) cs) s = do_call (cs ! i) (run (take i cs) s)"
  by (simp add: take_Suc_conv_app_nth run_snoc)

section \<open>Control-bit invariance\<close>

text \<open>
  Claim C1. Take a panel built by any of the constructors (all three are \<open>construct\<close>, with
  depth 3 or single buffering filled in), whose allocation succeeded and whose byte count
  fits the \<open>uint32_t\<close> that \<open>init\<close> computes it in. After any finite sequence of calls of
  the driver (\<open>drawPixel\<close> and \<open>fillScreen\<close> among them), in the front buffer and in the
  back buffer alike, bits 6 and 7 of every byte at offset \<open>k * row_size - 1\<close>, for
  \<open>k\<close> from 1 to \<open>depth * 16\<close>, are set, and bits 6 and 7 of every other byte are clear.
\<close>

theorem control_bit_invariance:
  assumes "initStatus (construct p raw x y d dbl) = 0"
    and "dbl \<Longrightarrow> 2 * d * plane_size (construct p raw x y d dbl) < 2 ^ 32"
  shows "control_bits_ok (run cs (construct p raw x y d dbl))
           (front_buffer (run cs (construct p raw x y d dbl)))
       \<and> control_bits_ok (run cs (construct p raw x y d dbl))
           (back_buffer (run cs (construct p raw x y d dbl)))"
proof -
  from assms(1) have p: "p \<noteq> 0" by (simp add: construct_fields split: if_splits)
  have "panel_inv (construct p raw x y d dbl)" by (rule construct_inv[OF p assms(2)])
  then have "panel_inv (run cs (construct p raw x y d dbl))" by (rule run_inv)
  then show ?thesis by (simp only: panel_inv_def)
qed

theorem control_bit_invariance_witness:
  "initStatus (construct heap_block blank_world 64 32 3 True) = 0
   \<and> 2 * 3 * plane_size (construct heap_block blank_world 64 32 3 True) < (2::nat) ^ 32
   \<and> control_bits_ok
        (run [FillScreen 0xFFFF, DrawPixel 5 5 0xF800, SwapBuffers, Tick]
           (construct heap_block blank_world 64 32 3 True))
        (front_buffer (run [FillScreen 0xFFFF, DrawPixel 5 5 0xF800, SwapBuffers, Tick]
           (construct heap_block blank_world 64 32 3 True)))
   \<and> control_bits_ok
        (run [FillScreen 0xFFFF, DrawPixel 5 5 0xF800, SwapBuffers, Tick]
           (construct heap_block blank_world 64 32 3 True))
        (back_buffer (run [FillScreen 0xFFFF, DrawPixel 5 5 0xF800, SwapBuffers, Tick]
           (construct heap_block blank_world 64 32 3 True)))"
proof -
  have h1: "initStatus (construct heap_block blank_world 64 32 3 True) = 0"
    by (simp add: construct_fields heap_block_def)
  have h2: "2 * 3 * plane_size (construct heap_block blank_world 64 32 3 True) < (2::nat) ^ 32"
    by (simp add: construct_fields)
  from control_bit_invariance[OF h1 h2] h1 h2 show ?thesis by blast
qed

section \<open>swapBuffers without double buffering\<close>

lemma single_buffer_call:
  assumes "\<not> double_buffer_enabled s \<and> \<not> swap_requested s"
  shows "\<not> double_buffer_enabled (do_call c s) \<and> \<not> swap_requested (do_call c s)"
  using assms
  by (cases c)
     (simp_all add: drawPixel_fields fillScreen_fields swapBuffers_def resync_def begin_fields
        refreshISR_def updateDisplay_fields updateDisplay_front rowCompleteCallback_def)

lemma single_buffer_run:
  assumes "\<not> double_buffer_enabled s \<and> \<not> swap_requested s"
  shows "\<not> double_buffer_enabled (run cs s) \<and> \<not> swap_requested (run cs s)"
  using assms unfolding run_def
  by (induction cs arbitrary: s) (simp_all add: single_buffer_call)

lemma swapBuffers_idle:
  assumes "\<not> double_buffer_enabled s" "\<not> swap_requested s"
  shows "swapBuffers s = s"
  using assms by (cases s) (simp add: swapBuffers_def)

text \<open>
  Claim C9. A panel constructed with double buffering disabled (the allocation having
  succeeded) is taken through any finite sequence of calls. In the state reached,
  \<open>swapBuffers\<close> changes nothing at all: buffers, pointers, cursor, flags and trace are
  what they were, and \<open>swap_requested\<close> is false before and after.
\<close>

theorem swapBuffers_noop_without_double_buffer:
  assumes "initStatus (construct p raw x y d False) = 0"
  shows "swapBuffers (run cs (construct p raw x y d False)) = run cs (construct p raw x y d False)
       \<and> \<not> swap_requested (run cs (construct p raw x y d False))
       \<and> \<not> swap_requested (swapBuffers (run cs (construct p raw x y d False)))"
proof -
  from assms have p: "p \<noteq> 0" by (simp add: construct_fields split: if_splits)
  have "\<not> double_buffer_enabled (construct p raw x y d False) \<and> \<not> swap_requested (construct p raw x y d False)"
    using p by (simp add: construct_fields construct_cursor)
  then have r: "\<not> double_buffer_enabled (run cs (construct p raw x y d False))
      \<and> \<not> swap_requested (run cs (construct p raw x y d False))"
    by (rule single_buffer_run)
  then have "swapBuffers (run cs (construct p raw x y d False)) = run cs (construct p raw x y d False)"
    by (intro swapBuffers_idle) simp_all
  with r show ?thesis by simp
qed

theorem swapBuffers_noop_without_double_buffer_witness:
  "initStatus (construct heap_block blank_world 32 32 3 False) = 0
   \<and> swapBuffers (run [FillScreen 7, SwapBuffers, Tick, Tick] (construct heap_block blank_world 32 32 3 False))
       = run [FillScreen 7, SwapBuffers, Tick, Tick] (construct heap_block blank_world 32 32 3 False)"
proof -
  have h: "initStatus (construct heap_block blank_world 32 32 3 False) = 0"
    by (simp add: construct_fields heap_block_def)
  from swapBuffers_noop_without_double_buffer[OF h] h show ?thesis by blast
qed

section \<open>When the front pointer moves\<close>

lemma do_call_front:
  assumes "front_buffer (do_call c s) \<noteq> front_buffer s"
  shows "c = Tick \<and> row (do_call c s) = 0 \<and> plane (do_call c s) = 0"
proof (cases c)
  case Tick
  from assms have "row s = 15 \<and> int (plane s) = int (depth s) - 1"
    unfolding Tick by (auto simp add: refreshISR_def updateDisplay_front split: if_splits)
  then show ?thesis
    unfolding Tick by (simp add: refreshISR_def updateDisplay_cursor advance_cursor)
qed (use assms in \<open>simp_all add: drawPixel_fields fillScreen_fields swapBuffers_def resync_def
      begin_fields rowCompleteCallback_def split: if_splits\<close>)

text \<open>
  Claim C4. Along any sequence of calls (refresh ticks interleaved with \<open>swapBuffers\<close>, and
  any other call of the driver), started in any state: if the front-buffer pointer after the
  \<open>i\<close>-th call differs from the pointer before it, then that call is a refresh tick and the
  cursor it leaves, after its advance step, is row 0 of plane 0. So the pointer moves at
  frame-start ticks only, and the first change after a \<open>swapBuffers\<close> is at such a tick.
\<close>

theorem front_pointer_moves_only_at_frame_start:
  assumes "i < length cs"
    and "front_buffer (run (take (Suc i) cs) s) \<noteq> front_buffer (run (take i cs) s)"
  shows "cs ! i = Tick \<and> row (run (take (Suc i) cs) s) = 0 \<and> plane (run (take (Suc i) cs) s) = 0"
  using assms(2) unfolding run_take_Suc[OF assms(1)] by (rule do_call_front)

theorem front_pointer_moves_only_at_frame_start_witness:
  "(1::nat) < length [SwapBuffers, Tick]
   \<and> front_buffer (run (take (Suc 1) [SwapBuffers, Tick]) (construct heap_block blank_world 32 32 1 True))
       \<noteq> front_buffer (run (take 1 [SwapBuffers, Tick]) (construct heap_block blank_world 32 32 1 True))
   \<and> [SwapBuffers, Tick] ! 1 = Tick
   \<and> row (run (take (Suc 1) [SwapBuffers, Tick]) (construct heap_block blank_world 32 32 1 True)) = 0
   \<and> plane (run (take (Suc 1) [SwapBuffers, Tick]) (construct heap_block blank_world 32 32 1 True)) = 0"
proof -
  let ?s = "construct heap_block blank_world 32 32 1 True"
  have p: "heap_block \<noteq> 0" by (simp add: heap_block_def)
  have fit: "True \<Longrightarrow> 2 * 1 * plane_size ?s < 2 ^ 32" by (simp add: construct_fields)
  have h1: "(1::nat) < length [SwapBuffers, Tick]" by simp
  have h2: "front_buffer (run (take (Suc 1) [SwapBuffers, Tick]) ?s)
       \<noteq> front_buffer (run (take 1 [SwapBuffers, Tick]) ?s)"
    using construct_buffers[OF p fit] construct_cursor[OF p, of blank_world 32 32 1 True]
    by (simp add: run_Cons run_Nil refreshISR_def updateDisplay_front swapBuffers_def
        construct_fields to_uint16_def)
  from front_pointer_moves_only_at_frame_start[OF h1 h2] h1 h2 show ?thesis by blast
qed

section \<open>One burst per tick\<close>

lemma emitted_append: "trace s' = trace s @ es \<Longrightarrow> emitted s s' = es"
  by (simp add: emitted_def)

text \<open>
  Claim C5. A refresh tick starts exactly one serial burst. Its length is \<open>row_size\<close> bytes
  and its source is \<open>front + plane * plane_size + row * row_size\<close>, where \<open>front\<close> is the
  front pointer the tick leaves and \<open>(plane, row)\<close> is the cursor after the tick's advance
  step.
\<close>

theorem one_burst_per_tick:
  "bursts_of (emitted s (updateDisplay s)) =
     [(front_buffer (updateDisplay s) + int (plane (updateDisplay s) * plane_size s)
         + int (row (updateDisplay s) * row_size s), row_size s)]
   \<and> row (updateDisplay s) = row (advance s) \<and> plane (updateDisplay s) = plane (advance s)"
proof -
  have "bursts_of (emitted s (updateDisplay s)) =
     [(front_buffer (updateDisplay s) + int (plane (advance s) * plane_size s)
         + int (row (advance s) * row_size s), row_size s)]"
    unfolding emitted_append[OF updateDisplay_trace] by simp
  then show ?thesis by (simp only: updateDisplay_cursor simp_thms)
qed

section \<open>The timer periods of consecutive ticks\<close>

lemma ticks_0: "ticks 0 s = s"
  by (simp add: ticks_def run_Nil)

lemma ticks_Suc: "ticks (Suc n) s = ticks n (updateDisplay s)"
  by (simp add: ticks_def run_Cons refreshISR_def)

lemma periods_of_append: "periods_of (xs @ ys) = periods_of xs @ periods_of ys"
  by (induction xs rule: periods_of.induct) simp_all

lemma trace_ticks: "\<exists>es. trace (ticks n s) = trace s @ es"
proof (induction n arbitrary: s)
  case 0
  then show ?case by (simp add: ticks_0)
next
  case (Suc n)
  from Suc[of "updateDisplay s"] obtain es where "trace (ticks n (updateDisplay s)) = trace (updateDisplay s) @ es"
    by blast
  then show ?case unfolding ticks_Suc by (simp add: updateDisplay_trace)
qed

lemma emitted_trans:
  assumes "trace s1 = trace s @ a" "trace s2 = trace s1 @ b"
  shows "emitted s s2 = emitted s s1 @ emitted s1 s2"
  using assms by (simp add: emitted_def)

lemma periods_tick:
  "periods_of (emitted s (updateDisplay s)) = [74 * 2 ^ (depth s - plane s - 1)]"
  unfolding emitted_append[OF updateDisplay_trace] by (simp add: periods_of_append)

lemma ticks_depth: "depth (ticks n s) = depth s"
  by (induction n arbitrary: s) (simp_all add: ticks_0 ticks_Suc updateDisplay_fields)

lemma cursor_step:
  assumes "cursor_ok s"
  shows "cursor_ok (updateDisplay s)"
    and "cursor_index (updateDisplay s) = (cursor_index s + 1) mod (16 * depth s)"
proof -
  from assms have r: "row s \<le> 15" and p: "plane s < depth s" and d: "depth s \<le> 4"
    by (simp_all add: cursor_ok_def)
  show "cursor_ok (updateDisplay s)"
    using r p d unfolding cursor_ok_def updateDisplay_cursor advance_cursor updateDisplay_fields
    by (auto simp add: to_uint16_def)
  show "cursor_index (updateDisplay s) = (cursor_index s + 1) mod (16 * depth s)"
  proof (cases "row s = 15")
    case False
    then have "cursor_index (updateDisplay s) = cursor_index s + 1"
      using r unfolding cursor_index_def updateDisplay_cursor advance_cursor
      by (simp add: to_uint16_def)
    moreover have "cursor_index s + 1 < 16 * depth s"
      using r p False unfolding cursor_index_def by simp
    ultimately show ?thesis by simp
  next
    case True
    show ?thesis
    proof (cases "int (plane s) = int (depth s) - 1")
      case True
      with \<open>row s = 15\<close> p have "cursor_index s + 1 = 16 * depth s"
        unfolding cursor_index_def by simp
      moreover have "cursor_index (updateDisplay s) = 0"
        using True \<open>row s = 15\<close> unfolding cursor_index_def updateDisplay_cursor advance_cursor by simp
      ultimately show ?thesis by simp
    next
      case False
      with p have lt: "plane s + 1 < depth s" by linarith
      have "cursor_index (updateDisplay s) = cursor_index s + 1"
        using False \<open>row s = 15\<close> lt d unfolding cursor_index_def updateDisplay_cursor advance_cursor
        by (simp add: to_uint16_def)
      moreover have "cursor_index s + 1 < 16 * depth s"
        using \<open>row s = 15\<close> lt unfolding cursor_index_def by simp
      ultimately show ?thesis by simp
    qed
  qed
qed

lemma cursor_plane: "cursor_ok s \<Longrightarrow> plane s = cursor_index s div 16"
  unfolding cursor_ok_def cursor_index_def by simp

lemma periods_ticks:
  assumes "cursor_ok s"
  shows "periods_of (emitted s (ticks n s)) =
     map (\<lambda>j. 74 * 2 ^ (depth s - 1 - ((cursor_index s + j) mod (16 * depth s)) div 16)) [0 ..< n]"
  using assms
proof (induction n arbitrary: s)
  case 0
  then show ?case by (simp add: ticks_0 emitted_def)
next
  case (Suc n)
  let ?s1 = "updateDisplay s"
  have ok1: "cursor_ok ?s1" and ci1: "cursor_index ?s1 = (cursor_index s + 1) mod (16 * depth s)"
    using cursor_step[OF Suc.prems] by simp_all
  from Suc.prems have lt: "cursor_index s < 16 * depth s"
    unfolding cursor_ok_def cursor_index_def by simp
  obtain es where es: "trace (ticks n ?s1) = trace ?s1 @ es" using trace_ticks by blast
  have "emitted s (ticks (Suc n) s) = emitted s ?s1 @ emitted ?s1 (ticks n ?s1)"
    unfolding ticks_Suc by (rule emitted_trans[OF updateDisplay_trace es])
  then have "periods_of (emitted s (ticks (Suc n) s)) =
      [74 * 2 ^ (depth s - plane s - 1)] @ periods_of (emitted ?s1 (ticks n ?s1))"
    by (simp only: periods_of_append periods_tick)
  also have "periods_of (emitted ?s1 (ticks n ?s1)) =
      map (\<lambda>j. 74 * 2 ^ (depth s - 1 - ((cursor_index s + Suc j) mod (16 * depth s)) div 16)) [0 ..< n]"
    unfolding Suc.IH[OF ok1] ci1 updateDisplay_fields
    by (simp add: mod_add_left_eq)
  also have "depth s - plane s - 1 = depth s - 1 - ((cursor_index s + 0) mod (16 * depth s)) div 16"
    using lt cursor_plane[OF Suc.prems] by simp
  finally show ?case
    by (simp only: upt_conv_Cons[of 0 "Suc n"] zero_less_Suc list.map map_Suc_upt[symmetric] map_map o_def
        append_Cons append_Nil)
qed

lemma schedule_by_index:
  "map (\<lambda>j. f (j div 16)) [0 ..< 16 * n] = concat (map (\<lambda>p. replicate 16 (f p)) [0 ..< n])"
proof (induction n)
  case 0
  then show ?case by simp
next
  case (Suc n)
  have e: "16 * Suc n = 16 * n + 16" by simp
  have split: "[0 ..< 16 * Suc n] = [0 ..< 16 * n] @ [16 * n ..< 16 * n + 16]"
    unfolding e by (rule upt_add_eq_append) simp
  have "j div 16 = n" if "j \<in> set [16 * n ..< 16 * n + 16]" for j
    using that by (auto intro!: div_nat_eqI)
  then have "map (\<lambda>j. f (j div 16)) [16 * n ..< 16 * n + 16] = map (\<lambda>j. f n) [16 * n ..< 16 * n + 16]"
    by (intro map_cong) simp_all
  also have "\<dots> = replicate 16 (f n)" by (simp add: map_replicate_const)
  finally show ?case unfolding split by (simp add: Suc.IH)
qed

lemma periods_from_plane_start:
  assumes "cursor_ok s" "cursor_index s = 0"
  shows "periods_of (emitted s (ticks (16 * depth s) s)) = bcm_schedule (depth s)"
proof -
  have "map (\<lambda>j. 74 * 2 ^ (depth s - 1 - ((0 + j) mod (16 * depth s)) div 16)) [0 ..< 16 * depth s]
      = map (\<lambda>j. 74 * 2 ^ (depth s - 1 - j div 16)) [0 ..< 16 * depth s]"
    by (intro map_cong) simp_all
  also have "\<dots> = bcm_schedule (depth s)"
    unfolding bcm_schedule_def by (rule schedule_by_index[of "\<lambda>p. 74 * 2 ^ (depth s - 1 - p)"])
  finally show ?thesis unfolding periods_ticks[OF assms(1)] assms(2) .
qed

text \<open>
  Claim C3, amended. The tick reprograms the timer before it advances the cursor, so the
  period it programs belongs to the plane the cursor is leaving. Start at the end of a frame,
  cursor at row 15 of plane \<open>depth - 1\<close>, with a depth between 1 and 4: the frame-start tick
  programs \<open>74 * 2^0\<close>, and the \<open>16 * depth\<close> ticks after it program 16 times
  \<open>74 * 2^(depth-1)\<close>, then 16 times \<open>74 * 2^(depth-2)\<close>, and so on down to 16 times
  \<open>74 * 2^0\<close>.
\<close>

theorem bcm_schedule_follows_frame_start:
  assumes "row s = 15" "plane s = depth s - 1" "1 \<le> depth s" "depth s \<le> 4"
  shows "periods_of (emitted s (ticks (16 * depth s + 1) s)) = 74 # bcm_schedule (depth s)"
proof -
  let ?s1 = "updateDisplay s"
  have ok: "cursor_ok s" using assms by (simp add: cursor_ok_def)
  have "cursor_index s + 1 = 16 * depth s" using assms by (simp add: cursor_index_def)
  then have ci1: "cursor_index ?s1 = 0" using cursor_step(2)[OF ok] by simp
  have ok1: "cursor_ok ?s1" by (rule cursor_step(1)[OF ok])
  obtain es where es: "trace (ticks (16 * depth s) ?s1) = trace ?s1 @ es" using trace_ticks by blast
  have "emitted s (ticks (Suc (16 * depth s)) s) = emitted s ?s1 @ emitted ?s1 (ticks (16 * depth s) ?s1)"
    unfolding ticks_Suc by (rule emitted_trans[OF updateDisplay_trace es])
  then have "periods_of (emitted s (ticks (Suc (16 * depth s)) s)) =
      [74 * 2 ^ (depth s - plane s - 1)] @ periods_of (emitted ?s1 (ticks (16 * depth ?s1) ?s1))"
    by (simp only: periods_of_append periods_tick updateDisplay_fields)
  also have "periods_of (emitted ?s1 (ticks (16 * depth ?s1) ?s1)) = bcm_schedule (depth ?s1)"
    by (rule periods_from_plane_start[OF ok1 ci1])
  finally show ?thesis using assms by (simp add: updateDisplay_fields)
qed

theorem bcm_schedule_follows_frame_start_witness:
  "row (construct heap_block blank_world 32 32 2 False) = 15
   \<and> plane (construct heap_block blank_world 32 32 2 False) = depth (construct heap_block blank_world 32 32 2 False) - 1
   \<and> 1 \<le> depth (construct heap_block blank_world 32 32 2 False)
   \<and> depth (construct heap_block blank_world 32 32 2 False) \<le> 4
   \<and> periods_of (emitted (construct heap_block blank_world 32 32 2 False)
        (ticks (16 * depth (construct heap_block blank_world 32 32 2 False) + 1)
           (construct heap_block blank_world 32 32 2 False)))
      = 74 # bcm_schedule (depth (construct heap_block blank_world 32 32 2 False))"
proof -
  let ?s = "construct heap_block blank_world 32 32 2 False"
  have p: "heap_block \<noteq> 0" by (simp add: heap_block_def)
  have h1: "row ?s = 15" by (simp add: construct_cursor[OF p])
  have h2: "plane ?s = depth ?s - 1" by (simp add: construct_cursor[OF p] construct_fields to_uint16_def)
  have h3: "1 \<le> depth ?s" by (simp add: construct_fields)
  have h4: "depth ?s \<le> 4" by (simp add: construct_fields)
  from bcm_schedule_follows_frame_start[OF h1 h2 h3 h4] h1 h2 h3 h4 show ?thesis by blast
qed

text \<open>
  The claim as stated fails on the frame that starts at the frame-start tick: with depth 2,
  the 32 ticks that follow construction program 74 first, not 148.
\<close>

theorem bcm_schedule_counterexample:
  "periods_of (emitted (construct heap_block blank_world 32 32 2 False)
       (ticks (16 * 2) (construct heap_block blank_world 32 32 2 False)))
     \<noteq> bcm_schedule 2"
proof -
  let ?s = "construct heap_block blank_world 32 32 2 False"
  have p: "heap_block \<noteq> 0" by (simp add: heap_block_def)
  have c: "row ?s = 15" "plane ?s = 1" "depth ?s = 2"
    by (simp_all add: construct_cursor[OF p] construct_fields to_uint16_def)
  then have ok: "cursor_ok ?s" by (simp add: cursor_ok_def)
  have ci: "cursor_index ?s = 31" using c by (simp add: cursor_index_def)
  have "hd (periods_of (emitted ?s (ticks (16 * 2) ?s))) = 74"
    unfolding periods_ticks[OF ok] ci c by (simp add: hd_map)
  moreover have "hd (bcm_schedule 2) = 148"
    by (simp add: bcm_schedule_def upt_rec)
  ultimately show ?thesis by auto
qed

section \<open>begin and the timers\<close>

lemma construct_world:
  "in_use (construct p raw x y d dbl) = in_use raw"
  "timer (construct p raw x y d dbl) = timer raw"
  "rowComplete (construct p raw x y d dbl) = rowComplete raw"
  by (cases "p = 0";
      simp add: construct_ok construct_failed init_finish_def init_clear_def swap_pointers_def
        init_pins_spi_def emits_def fillScreen_def set_geometry_def Let_def)+

lemma begin_timer:
  "timer (snd (begin_refresh s)) =
     (case find (\<lambda>t. t \<notin> in_use s) ranked_timers of None \<Rightarrow> timer s | Some t \<Rightarrow> Some t)"
  "trace (snd (begin_refresh s)) = trace s @
     (case find (\<lambda>t. t \<notin> in_use s) ranked_timers of None \<Rightarrow> [] | Some t \<Rightarrow> [TimerBegin t 250])"
  "initStatus (snd (begin_refresh s)) = initStatus s"
  "rowComplete (snd (begin_refresh s)) = 0"
  unfolding begin_refresh_find begin_prepared_def
  by (simp_all add: emits_fields split: option.split)

lemma find_all_busy: "set ts \<subseteq> B \<Longrightarrow> find (\<lambda>t. t \<notin> B) ts = None"
  by (induction ts) auto

text \<open>
  Claim C7, amended. \<open>begin\<close> tries TIMER3, TIMER4, TIMER5, TIMER6 and TIMER7 in this
  order and claims the first one that is not in use. When all five are in use no timer is
  claimed and no timer call is recorded, so the refresh engine does not start. \<open>begin\<close>
  returns nothing: its result is the unit value in every case.
\<close>

theorem begin_claims_first_free_timer:
  "timer (snd (begin_refresh s)) =
     (case find (\<lambda>t. t \<notin> in_use s) ranked_timers of None \<Rightarrow> timer s | Some t \<Rightarrow> Some t)
   \<and> (set ranked_timers \<subseteq> in_use s \<longrightarrow>
        timer (snd (begin_refresh s)) = timer s \<and> trace (snd (begin_refresh s)) = trace s)
   \<and> fst (begin_refresh s) = ()"
  by (simp add: begin_timer find_all_busy)

theorem begin_claims_first_free_timer_witness:
  "set ranked_timers \<subseteq> in_use (construct heap_block busy_world 32 32 3 False)
   \<and> timer (snd (begin_refresh (construct heap_block busy_world 32 32 3 False))) = None
   \<and> trace (snd (begin_refresh (construct heap_block busy_world 32 32 3 False)))
       = trace (construct heap_block busy_world 32 32 3 False)"
proof -
  let ?s = "construct heap_block busy_world 32 32 3 False"
  have h: "set ranked_timers \<subseteq> in_use ?s"
    by (simp add: construct_world busy_world_def ranked_timers_def)
  have t: "timer ?s = None" by (simp add: construct_world busy_world_def blank_world_def)
  from begin_claims_first_free_timer[of ?s] h
  have "timer (snd (begin_refresh ?s)) = timer ?s \<and> trace (snd (begin_refresh ?s)) = trace ?s"
    by blast
  with h t show ?thesis by simp
qed

text \<open>
  The claim as stated fails: with every timer taken \<open>begin\<close> hands its caller the same
  (unit) result as when it claims TIMER3, and the status fields of the object agree too.
\<close>

theorem begin_failure_not_reported:
  "timer (snd (begin_refresh (construct heap_block busy_world 32 32 3 False))) = None
   \<and> timer (snd (begin_refresh (construct heap_block blank_world 32 32 3 False))) = Some TIMER3
   \<and> fst (begin_refresh (construct heap_block busy_world 32 32 3 False))
       = fst (begin_refresh (construct heap_block blank_world 32 32 3 False))
   \<and> initStatus (snd (begin_refresh (construct heap_block busy_world 32 32 3 False)))
       = initStatus (snd (begin_refresh (construct heap_block blank_world 32 32 3 False)))
   \<and> rowComplete (snd (begin_refresh (construct heap_block busy_world 32 32 3 False)))
       = rowComplete (snd (begin_refresh (construct heap_block blank_world 32 32 3 False)))"
  by (simp add: begin_timer construct_world construct_fields busy_world_def blank_world_def
      ranked_timers_def)

section \<open>Concrete panels\<close>

lemma fill_color_zero: "fill_color 0 p = 0"
  unfolding fill_color_def Let_def cbit_bit by simp

lemma construct_mem_single:
  assumes p: "p \<noteq> 0"
  shows "mem (construct p raw x y d False) a =
    (let v = (if p \<le> a \<and> a < p + int (d * plane_size (construct p raw x y d False))
              then 0 else mem raw a)
     in if \<exists>i\<in>{1 .. d * 16}. a = p + int (row_size (construct p raw x y d False) * i) - 1
        then v OR 0xC0 else v)"
proof -
  let ?g = "init_pins_spi ((set_geometry x y d False raw)\<lparr>front_buffer := p, back_buffer := p\<rparr>)"
  have f: "width ?g = width (set_geometry x y d False raw)" "height ?g = height (set_geometry x y d False raw)"
    "row_size ?g = row_size (set_geometry x y d False raw)"
    "plane_size ?g = plane_size (set_geometry x y d False raw)"
    "depth ?g = d" "back_buffer ?g = p" "mem ?g = mem raw" "double_buffer_enabled ?g = False"
    by (simp_all add: init_pins_spi_fields set_geometry_fields)
  have g: "geometry_ok ?g"
    using set_geometry_ok[of x y d False raw] geometry_ok_cong[of ?g "set_geometry x y d False raw"]
    by (simp only: f)
  have "mem (construct p raw x y d False) = mem (fillScreen 0 ?g)"
    unfolding construct_ok[OF p] by (simp add: init_finish_fields init_clear_def f)
  then show ?thesis
    unfolding fillScreen_mem[OF g] f fill_color_zero construct_fields set_geometry_fields
    by simp
qed

lemma scenario_S3_fields:
  "width scenario_S3 = 32" "height scenario_S3 = 64" "row_size scenario_S3 = 64"
  "plane_size scenario_S3 = 1024" "depth scenario_S3 = 3"
  "back_buffer scenario_S3 = heap_block" "front_buffer scenario_S3 = heap_block"
proof -
  have p: "heap_block \<noteq> 0" by (simp add: heap_block_def)
  have fit: "False \<Longrightarrow> 2 * unat (3::u16) * plane_size (construct heap_block blank_world 32 64 (unat (3::u16)) False) < 2 ^ 32"
    by simp
  show "width scenario_S3 = 32" "height scenario_S3 = 64" "row_size scenario_S3 = 64"
    "plane_size scenario_S3 = 1024" "depth scenario_S3 = 3"
    by (simp_all add: scenario_S3_def RGBmatrixPanelCPLD3_def construct_fields)
  show "back_buffer scenario_S3 = heap_block" "front_buffer scenario_S3 = heap_block"
    using construct_buffers[OF p fit] by (simp_all add: scenario_S3_def RGBmatrixPanelCPLD3_def)
qed

lemma scenario_S3_mem:
  "mem scenario_S3 a =
    (if \<exists>i\<in>{1 .. 48}. a = heap_block + int (64 * i) - 1 then 0xC0 else 0)"
proof -
  have p: "heap_block \<noteq> 0" by (simp add: heap_block_def)
  show ?thesis
    unfolding scenario_S3_def RGBmatrixPanelCPLD3_def construct_mem_single[OF p]
    by (simp add: construct_fields blank_world_def)
qed

lemma scenario_S3_control_bytes:
  "mem scenario_S3 536871935 = 0xC0"
  "mem scenario_S3 536872959 = 0xC0"
  "mem scenario_S3 536873983 = 0xC0"
proof -
  have "\<exists>i\<in>{1 .. 48::nat}. (536871935::int) = heap_block + int (64 * i) - 1"
    by (rule bexI[of _ 16]) (simp_all add: heap_block_def)
  then show "mem scenario_S3 536871935 = 0xC0"
    unfolding scenario_S3_mem by (simp only: if_True)
  have "\<exists>i\<in>{1 .. 48::nat}. (536872959::int) = heap_block + int (64 * i) - 1"
    by (rule bexI[of _ 32]) (simp_all add: heap_block_def)
  then show "mem scenario_S3 536872959 = 0xC0"
    unfolding scenario_S3_mem by (simp only: if_True)
  have "\<exists>i\<in>{1 .. 48::nat}. (536873983::int) = heap_block + int (64 * i) - 1"
    by (rule bexI[of _ 48]) (simp_all add: heap_block_def)
  then show "mem scenario_S3 536873983 = 0xC0"
    unfolding scenario_S3_mem by (simp only: if_True)
qed

lemma Color444_red: "Color444 15 0 0 = 0xF000"
  by (simp add: Color444_def)

lemma scenario_S3_draw:
  "mem (drawPixel 0 32 (Color444 15 0 0) scenario_S3) =
     (mem scenario_S3)(536871935 := 0xC4, 536872959 := 0xC4, 536873983 := 0xC4)"
proof -
  have "mem (drawPixel 0 32 (Color444 15 0 0) scenario_S3) = put_planes scenario_S3 1023 0xF8 0 0xF000"
    unfolding drawPixel_def Let_def Color444_red scenario_S3_fields
    by (simp add: to_int16_id)
  also have "\<dots> = (mem scenario_S3)(536871935 := 0xC4, 536872959 := 0xC4, 536873983 := 0xC4)"
    unfolding put_planes_def Let_def put_plane_eq scenario_S3_fields heap_block_def
    by (simp add: scenario_S3_control_bytes upd_byte_def)
  finally show ?thesis .
qed

text \<open>
  Claim C8, amended. On a panel 32 wide and 64 high with depth 3,
  \<open>drawPixel(0, 32, Color444(15,0,0))\<close> modifies, in plane 0, exactly the byte at row 15,
  column \<open>2W - 1 = 63\<close>: the last byte of the row, the control byte itself, which goes from
  \<open>0xC0\<close> to \<open>0xC4\<close> (bit 2, lower-half red, set; bits 6 and 7 kept). The bytes at the
  same place in planes 1 and 2 change in the same way, and no other byte changes.
\<close>

theorem scenario_S3_writes_control_byte:
  "mem (drawPixel 0 32 (Color444 15 0 0) scenario_S3) =
     (mem scenario_S3)
       (back_buffer scenario_S3 + int (0 * plane_size scenario_S3) + int (15 * row_size scenario_S3) + 63 := 0xC4,
        back_buffer scenario_S3 + int (1 * plane_size scenario_S3) + int (15 * row_size scenario_S3) + 63 := 0xC4,
        back_buffer scenario_S3 + int (2 * plane_size scenario_S3) + int (15 * row_size scenario_S3) + 63 := 0xC4)
   \<and> mem scenario_S3 (back_buffer scenario_S3 + int (0 * plane_size scenario_S3)
         + int (15 * row_size scenario_S3) + 63) = 0xC0
   \<and> int (row_size scenario_S3) - 1 = 63
   \<and> bit (0xC4 :: u8) 2 \<and> \<not> bit (0xC0 :: u8) 2"
  unfolding scenario_S3_draw scenario_S3_fields heap_block_def
  by (simp add: scenario_S3_control_bytes)

text \<open>
  The claim as stated fails: the byte at column \<open>2W - 2 = 62\<close> of row 15 of plane 0 is
  not modified, and the byte at column 63 is.
\<close>

theorem scenario_S3_counterexample:
  "mem (drawPixel 0 32 (Color444 15 0 0) scenario_S3)
       (back_buffer scenario_S3 + int (15 * row_size scenario_S3) + 62)
     = mem scenario_S3 (back_buffer scenario_S3 + int (15 * row_size scenario_S3) + 62)
   \<and> mem (drawPixel 0 32 (Color444 15 0 0) scenario_S3)
       (back_buffer scenario_S3 + int (15 * row_size scenario_S3) + 63)
     \<noteq> mem scenario_S3 (back_buffer scenario_S3 + int (15 * row_size scenario_S3) + 63)"
  unfolding scenario_S3_draw scenario_S3_fields heap_block_def
  by (simp add: scenario_S3_control_bytes)

section \<open>fillScreen and the colour bits\<close>

lemma default_panel_fields:
  "width default_panel = 32" "height default_panel = 32" "row_size default_panel = 32"
  "plane_size default_panel = 512" "depth default_panel = 3"
  "back_buffer default_panel = heap_block" "geometry_ok default_panel"
proof -
  have p: "heap_block \<noteq> 0" by (simp add: heap_block_def)
  have fit: "False \<Longrightarrow> 2 * 3 * plane_size (construct heap_block blank_world 32 32 3 False) < 2 ^ 32"
    by simp
  show "width default_panel = 32" "height default_panel = 32" "row_size default_panel = 32"
    "plane_size default_panel = 512" "depth default_panel = 3"
    by (simp_all add: default_panel_def RGBmatrixPanelCPLD2_def construct_fields)
  show "back_buffer default_panel = heap_block"
    using construct_buffers[OF p fit] by (simp add: default_panel_def RGBmatrixPanelCPLD2_def)
  show "geometry_ok default_panel"
    using construct_inv[OF p fit]
    by (simp add: default_panel_def RGBmatrixPanelCPLD2_def panel_inv_def)
qed

lemma default_panel_mem0: "mem default_panel 536870912 = 0"
proof -
  have p: "heap_block \<noteq> 0" by (simp add: heap_block_def)
  have "\<not> (\<exists>i\<in>{1 .. 3 * 16::nat}. (536870912::int) = heap_block + int (32 * i) - 1)"
    by (auto simp add: heap_block_def)
  then show ?thesis
    unfolding default_panel_def RGBmatrixPanelCPLD2_def construct_mem_single[OF p] construct_fields Let_def
    by (simp add: heap_block_def)
qed

text \<open>With four planes the fill takes the bits the specification names.\<close>

lemma fill_color_depth_4: "p < 4 \<Longrightarrow> fill_color c (4 - 1 - p) = spec_fill_byte c p"
proof -
  assume "p < 4"
  then consider "p = 0" | "p = 1" | "p = 2" | "p = 3" by linarith
  moreover have "fill_color c 3 = spec_fill_byte c 0" "fill_color c 2 = spec_fill_byte c 1"
    "fill_color c 1 = spec_fill_byte c 2" "fill_color c 0 = spec_fill_byte c 3"
    by (simp_all add: fill_color_def spec_fill_byte_def Let_def cbit_bit eval_nat_numeral)
  ultimately show ?thesis by cases simp_all
qed

text \<open>
  Claim C6 at depth 3, the depth of the two-argument constructor: \<open>fillScreen(0x8000)\<close>
  leaves the first byte of plane 0 at \<open>0x00\<close>, where the claim gives \<open>0x24\<close> (red, bit 15,
  in both halves) and where \<open>drawPixel(0, 0, 0x8000)\<close> does set the red bit of the upper
  half.
\<close>

theorem fillScreen_drops_top_bit_at_depth_3:
  "depth default_panel = 3
   \<and> mem (fillScreen 0x8000 default_panel) (back_buffer default_panel) = 0x00
   \<and> spec_fill_byte 0x8000 0 = 0x24
   \<and> mem (drawPixel 0 0 0x8000 default_panel) (back_buffer default_panel) = 0x20"
proof -
  have n: "\<not> (\<exists>i\<in>{1 .. 3 * 16::nat}. heap_block = heap_block + int (32 * i) - 1)"
    by auto
  have fc: "fill_color 0x8000 2 = 0"
    by (simp add: fill_color_def Let_def cbit_bit)
  have a: "mem (fillScreen 0x8000 default_panel) (back_buffer default_panel) = 0x00"
    unfolding fillScreen_mem[OF default_panel_fields(7)] default_panel_fields Let_def
    using n by (simp add: fc)
  have b: "spec_fill_byte 0x8000 0 = 0x24"
    by (simp add: spec_fill_byte_def Let_def)
  have c: "mem (drawPixel 0 0 0x8000 default_panel) (back_buffer default_panel) = 0x20"
    unfolding drawPixel_def Let_def default_panel_fields
    by (simp add: to_int16_id put_planes_def put_plane_eq default_panel_fields default_panel_mem0
        upd_byte_def heap_block_def Let_def)
  from a b c default_panel_fields(5) show ?thesis by simp
qed

section \<open>drawPixel: where it writes and what it writes\<close>

lemma code_y_int:
  "(if sint y div 32 mod 2 = 0 then sint y mod 32 else 31 - sint y mod 32) = spec_y_int (sint y)"
  by (simp add: spec_y_int_def even_iff_mod_2_eq_zero)

lemma take_bit_3_eqI:
  fixes a b :: u8
  assumes "bit a 0 = bit b 0" "bit a 1 = bit b 1" "bit a 2 = bit b 2"
  shows "take_bit 3 a = take_bit 3 b"
proof (rule bit_eqI)
  fix n :: nat
  have "n < 3 \<Longrightarrow> n = 0 \<or> n = 1 \<or> n = 2" by arith
  with assms have "n < 3 \<Longrightarrow> bit a n = bit b n" by auto
  then show "bit (take_bit 3 a) n = bit (take_bit 3 b) n"
    by (auto simp add: bit_take_bit_iff)
qed

lemma lower_pixel_eqI:
  assumes "\<And>n. n \<in> {0, 1, 2} \<Longrightarrow> bit a n = bit b n"
  shows "lower_pixel a = lower_pixel b"
  unfolding lower_pixel_def by (rule take_bit_3_eqI) (simp_all add: assms)

lemma upper_pixel_eqI:
  assumes "\<And>n. n \<in> {3, 4, 5} \<Longrightarrow> bit a n = bit b n"
  shows "upper_pixel a = upper_pixel b"
  unfolding upper_pixel_def
  by (rule take_bit_3_eqI) (simp_all add: bit_drop_bit_eq assms)

text \<open>
  Claim C10. For an in-bounds \<open>drawPixel(x, y, c)\<close>: when the pixel is in the upper half
  (its colour goes to bits 3..5), the lower-half pixel in bits 0..2 of every byte of memory,
  so of every plane, is what it was; when the pixel is in the lower half, the upper-half
  pixel in bits 3..5 of every byte is what it was.
\<close>

theorem drawPixel_keeps_other_half:
  assumes "in_bounds s x y"
  shows "(upper_half (sint y) \<longrightarrow>
            (\<forall>a. lower_pixel (mem (drawPixel x y c s) a) = lower_pixel (mem s a)))
       \<and> (\<not> upper_half (sint y) \<longrightarrow>
            (\<forall>a. upper_pixel (mem (drawPixel x y c s) a) = upper_pixel (mem s a)))"
proof -
  have lo: "lower_pixel (put_planes s off 0xC7 3 c a) = lower_pixel (mem s a)" for off a
    by (rule lower_pixel_eqI) (rule put_planes_keeps_upper, auto)
  have up: "upper_pixel (put_planes s off 0xF8 0 c a) = upper_pixel (mem s a)" for off a
    by (rule upper_pixel_eqI) (rule put_planes_keeps_lower, auto)
  from assms have b: "0 \<le> sint y \<and> 0 \<le> sint x \<and> sint y < int (height s) \<and> sint x < int (width s)"
    by (simp add: in_bounds_def)
  show ?thesis
    unfolding drawPixel_def Let_def code_y_int upper_half_def
    by (simp add: b lo up)
qed

theorem drawPixel_keeps_other_half_witness:
  "in_bounds default_panel 3 4 \<and> upper_half (sint (4::u16))
   \<and> lower_pixel (mem (drawPixel 3 4 0xFFFF default_panel) (back_buffer default_panel + 131))
       = lower_pixel (mem default_panel (back_buffer default_panel + 131))"
proof -
  have h: "in_bounds default_panel 3 4" by (simp add: in_bounds_def default_panel_fields)
  have u: "upper_half (sint (4::u16))" by (simp add: upper_half_def spec_y_int_def)
  from drawPixel_keeps_other_half[OF h, of "0xFFFF"] u h show ?thesis by blast
qed

section \<open>The colour round trip\<close>

lemma column_fits:
  assumes g: "geometry_ok s" and b: "in_bounds s x y"
  shows "0 \<le> spec_column s (sint x) (sint y)"
    and "spec_column s (sint x) (sint y) < int (row_size s)"
proof -
  let ?W = "int (width s)" and ?pr = "sint y div 32"
  from b have x: "0 \<le> sint x" "sint x < ?W" and y: "0 \<le> sint y" "sint y < int (height s)"
    by (simp_all add: in_bounds_def)
  from g obtain k where k: "height s = 32 * k" by (auto simp: geometry_ok_def dvd_def)
  from g k have rs: "int (row_size s) = ?W * int k" by (simp add: geometry_ok_def)
  have pr0: "0 \<le> ?pr" using y by simp
  have "sint y < 32 * int k" using y k by simp
  then have prk: "?pr + 1 \<le> int k" by simp
  have xm: "sint x mod ?W = sint x" using x by simp
  have W0: "0 \<le> ?W" by simp
  have lo: "0 \<le> ?pr * ?W" using pr0 W0 by (rule mult_nonneg_nonneg)
  have "(?pr + 1) * ?W \<le> int k * ?W" using prk W0 by (rule mult_right_mono)
  then have hi: "?pr * ?W + ?W \<le> int (row_size s)" by (simp add: rs algebra_simps)
  show "0 \<le> spec_column s (sint x) (sint y)"
    unfolding spec_column_def xm using x lo by auto
  show "spec_column s (sint x) (sint y) < int (row_size s)"
    unfolding spec_column_def xm using x hi by auto
qed

lemma drawPixel_mem:
  assumes g: "geometry_ok s" and b: "in_bounds s x y" and fit: "row_size s \<le> 32768"
  shows "mem (drawPixel x y c s) =
     put_planes s (spec_row (sint y) * int (row_size s) + spec_column s (sint x) (sint y))
       (if upper_half (sint y) then 0xC7 else 0xF8) (half_shift (sint y)) c"
proof -
  from b have bb: "0 \<le> sint y \<and> 0 \<le> sint x \<and> sint y < int (height s) \<and> sint x < int (width s)"
    by (simp add: in_bounds_def)
  have col: "(if sint y div 32 mod 2 = 0
              then to_int16 (sint x mod int (width s) + sint y div 32 * int (width s))
              else to_int16 ((int (width s) - 1 - sint x mod int (width s)) + sint y div 32 * int (width s)))
        = spec_column s (sint x) (sint y)"
  proof -
    have "to_int16 (spec_column s (sint x) (sint y)) = spec_column s (sint x) (sint y)"
      using column_fits[OF g b] fit by (intro to_int16_id) simp_all
    then show ?thesis
      unfolding spec_column_def by (simp add: even_iff_mod_2_eq_zero split: if_splits)
  qed
  show ?thesis
    unfolding drawPixel_def Let_def code_y_int col spec_row_def upper_half_def half_shift_def
    by (simp add: bb)
qed

lemma put_planes_at:
  assumes ps: "0 < plane_size s" and p: "p < depth s" "p < 4"
  shows "put_planes s off keep sh c (back_buffer s + int (p * plane_size s) + off) =
     upd_byte (mem s (back_buffer s + int (p * plane_size s) + off)) keep sh
       (bit c (15 - p)) (bit c (10 - p)) (bit c (4 - p))"
proof -
  from p(2) consider "p = 0" | "p = 1" | "p = 2" | "p = 3" by linarith
  then show ?thesis
  proof cases
    case 1
    then show ?thesis using ps p unfolding put_planes_def Let_def put_plane_eq by simp
  next
    case 2
    then show ?thesis using ps p unfolding put_planes_def Let_def put_plane_eq by simp
  next
    case 3
    then show ?thesis using ps p unfolding put_planes_def Let_def put_plane_eq by simp
  next
    case 4
    then show ?thesis using ps p unfolding put_planes_def Let_def put_plane_eq by simp
  qed
qed

lemma upd_byte_channel:
  "bit (upd_byte old (if u then 0xC7 else 0xF8) (if u then 3 else 0)
          (bit c (15 - p)) (bit c (10 - p)) (bit c (4 - p)))
       ((if u then 3 else 0) + chan_pos ch) = bit c (chan_msb ch - p)"
  by (cases ch; cases u) (simp_all add: upd_upper_bits upd_lower_bits)

lemma drawPixel_pixel_bit:
  assumes g: "geometry_ok s" and b: "in_bounds s x y" and fit: "row_size s \<le> 32768"
    and p: "p < depth s" "p < 4"
  shows "pixel_bit (drawPixel x y c s) p (sint x) (sint y) ch = bit c (chan_msb ch - p)"
proof -
  from b have "0 < width s" "0 < height s" by (auto simp add: in_bounds_def)
  moreover from g obtain k where "height s = 32 * k" by (auto simp: geometry_ok_def dvd_def)
  ultimately have ps: "0 < plane_size s" using g by (auto simp add: geometry_ok_def)
  have a: "pixel_addr (drawPixel x y c s) p (sint x) (sint y) =
      back_buffer s + int (p * plane_size s)
        + (spec_row (sint y) * int (row_size s) + spec_column s (sint x) (sint y))"
    unfolding pixel_addr_def spec_column_def drawPixel_fields by simp
  show ?thesis
    unfolding pixel_bit_def a drawPixel_mem[OF g b fit] put_planes_at[OF ps p] half_shift_def
    by (rule upd_byte_channel)
qed

lemma fold_bits:
  assumes "d \<le> m + 1"
  shows "fold (\<lambda>p v. 2 * v + of_bool (bit c (m - p))) [0 ..< d] 0 = (unat c div 2 ^ (m + 1 - d)) mod 2 ^ d"
  using assms
proof (induction d)
  case 0
  then show ?case by simp
next
  case (Suc d)
  let ?n = "unat c div 2 ^ (m - d)"
  have e: "m + 1 - d = Suc (m - d)" using Suc.prems by simp
  have "?n div 2 = unat c div (2 ^ (m - d) * 2)" by (simp only: div_mult2_eq)
  also have "2 ^ (m - d) * 2 = (2::nat) ^ Suc (m - d)" by simp
  finally have half: "?n div 2 = unat c div 2 ^ (m + 1 - d)" unfolding e .
  have odd: "?n mod 2 = of_bool (bit c (m - d))"
    by (simp add: bit_iff_odd[of "unat c", symmetric] mod_2_eq_odd bit_unsigned_iff)
  have "fold (\<lambda>p v. 2 * v + of_bool (bit c (m - p))) [0 ..< Suc d] 0
      = 2 * ((unat c div 2 ^ (m + 1 - d)) mod 2 ^ d) + of_bool (bit c (m - d))"
    using Suc by simp
  also have "\<dots> = 2 * (?n div 2 mod 2 ^ d) + ?n mod 2" by (simp only: half odd)
  also have "\<dots> = ?n mod (2 * 2 ^ d)" by (simp only: mod_mult2_eq)
  finally show ?case by simp
qed

lemma drawPixel_decode:
  assumes g: "geometry_ok s" and b: "in_bounds s x y" and fit: "row_size s \<le> 32768"
    and d: "depth s \<le> 4"
  shows "decode_pixel (drawPixel x y c s) (sint x) (sint y) ch = top_bits (depth s) c ch"
proof -
  have "fold (\<lambda>p v. 2 * v + of_bool (pixel_bit (drawPixel x y c s) p (sint x) (sint y) ch)) [0 ..< depth s] 0
      = fold (\<lambda>p v. 2 * v + of_bool (bit c (chan_msb ch - p))) [0 ..< depth s] 0"
  proof (rule fold_cong[OF refl refl])
    fix p assume "p \<in> set [0 ..< depth s]"
    then have "p < depth s" "p < 4" using d by auto
    then show "(\<lambda>v. 2 * v + of_bool (pixel_bit (drawPixel x y c s) p (sint x) (sint y) ch))
        = (\<lambda>v. 2 * v + of_bool (bit c (chan_msb ch - p)))"
      by (simp only: drawPixel_pixel_bit[OF g b fit])
  qed
  also have "\<dots> = (unat c div 2 ^ (chan_msb ch + 1 - depth s)) mod 2 ^ depth s"
    using d by (intro fold_bits) (cases ch, simp_all)
  finally show ?thesis unfolding decode_pixel_def top_bits_def drawPixel_fields .
qed

lemma run_geometry: "geometry_ok (run cs (construct p raw x y d dbl))"
proof -
  have c: "geometry_ok (do_call c s) = geometry_ok s" for c s
    by (cases c; rule geometry_ok_cong)
       (simp_all add: drawPixel_fields fillScreen_fields swapBuffers_def resync_def begin_fields
          refreshISR_def updateDisplay_fields rowCompleteCallback_def)
  have r: "geometry_ok s \<Longrightarrow> geometry_ok (run cs s)" for s
    unfolding run_def by (induction cs arbitrary: s) (simp_all add: c)
  have "geometry_ok (construct p raw x y d dbl) = geometry_ok (set_geometry x y d dbl raw)"
    by (rule geometry_ok_cong) (simp_all add: construct_fields set_geometry_fields)
  then show ?thesis using set_geometry_ok r by simp
qed

text \<open>
  Claim C2, amended. The panel has the geometry its constructor computed, a depth \<open>D\<close>
  between 1 and 4, and a chained row of at most 32768 bytes, so that every column fits the
  \<open>int16_t\<close> it is kept in. For an in-bounds \<open>(x, y)\<close> and any 5-6-5 colour \<open>c\<close>, after
  \<open>drawPixel(x, y, c)\<close> the pixel's bits in plane \<open>p < D\<close> are bit \<open>15 - p\<close> of \<open>c\<close>
  for red, bit \<open>10 - p\<close> for green and bit \<open>4 - p\<close> for blue, and the reference decoder,
  which reads the planes of the pixel's byte from plane 0 on, returns the top \<open>D\<close> bits of
  each channel.
\<close>

theorem drawPixel_round_trip:
  assumes "geometry_ok s" and "1 \<le> depth s" and "depth s \<le> 4" and "row_size s \<le> 32768"
    and "in_bounds s x y"
  shows "(\<forall>p<depth s. \<forall>ch.
            pixel_bit (drawPixel x y c s) p (sint x) (sint y) ch = bit c (chan_msb ch - p))
       \<and> (\<forall>ch. decode_pixel (drawPixel x y c s) (sint x) (sint y) ch = top_bits (depth s) c ch)"
proof (intro conjI allI impI)
  fix p ch assume "p < depth s"
  moreover from this assms(3) have "p < 4" by simp
  ultimately show "pixel_bit (drawPixel x y c s) p (sint x) (sint y) ch = bit c (chan_msb ch - p)"
    by (rule drawPixel_pixel_bit[OF assms(1,5,4)])
next
  fix ch
  show "decode_pixel (drawPixel x y c s) (sint x) (sint y) ch = top_bits (depth s) c ch"
    by (rule drawPixel_decode[OF assms(1,5,4,3)])
qed

theorem drawPixel_round_trip_witness:
  "geometry_ok scenario_S3 \<and> 1 \<le> depth scenario_S3 \<and> depth scenario_S3 \<le> 4
   \<and> row_size scenario_S3 \<le> 32768 \<and> in_bounds scenario_S3 7 40
   \<and> pixel_bit (drawPixel 7 40 0xA81F scenario_S3) 2 (sint (7::u16)) (sint (40::u16)) Red
       = bit (0xA81F::u16) (chan_msb Red - 2)
   \<and> decode_pixel (drawPixel 7 40 0xA81F scenario_S3) (sint (7::u16)) (sint (40::u16)) Red
       = top_bits (depth scenario_S3) 0xA81F Red"
proof -
  have h1: "geometry_ok scenario_S3"
    unfolding scenario_S3_def RGBmatrixPanelCPLD3_def using run_geometry[of "[]"]
    by (simp add: run_Nil)
  have h2: "1 \<le> depth scenario_S3" and h3: "depth scenario_S3 \<le> 4"
    and h4: "row_size scenario_S3 \<le> 32768"
    by (simp_all add: scenario_S3_fields)
  have h5: "in_bounds scenario_S3 7 40" by (simp add: in_bounds_def scenario_S3_fields)
  have "(2::nat) < depth scenario_S3" by (simp add: scenario_S3_fields)
  with drawPixel_round_trip[OF h1 h2 h3 h4 h5, of "0xA81F"] h1 h2 h3 h4 h5 show ?thesis by blast
qed

lemma long_chain_fields:
  "width long_chain = 64" "height long_chain = 16416" "row_size long_chain = 32832"
  "plane_size long_chain = 525312" "depth long_chain = 1" "initStatus long_chain = 0"
  "back_buffer long_chain = 536870912"
proof -
  have p: "heap_block \<noteq> 0" by (simp add: heap_block_def)
  have fit: "False \<Longrightarrow> 2 * unat (1::u16) * plane_size (construct heap_block blank_world 64 16416 (unat (1::u16)) False) < 2 ^ 32"
    by simp
  show "width long_chain = 64" "height long_chain = 16416" "row_size long_chain = 32832"
    "plane_size long_chain = 525312" "depth long_chain = 1" "initStatus long_chain = 0"
    by (simp_all add: long_chain_def RGBmatrixPanelCPLD3_def construct_fields heap_block_def)
  show "back_buffer long_chain = 536870912"
    using construct_buffers[OF p fit]
    by (simp add: long_chain_def RGBmatrixPanelCPLD3_def heap_block_def)
qed

lemma long_chain_mem: "mem long_chain 536903680 = 0"
proof -
  have p: "heap_block \<noteq> 0" by (simp add: heap_block_def)
  have "\<not> (\<exists>i\<in>{1 .. 16::nat}. (536903680::int) = heap_block + int (32832 * i) - 1)"
    unfolding heap_block_def by auto
  then show ?thesis
    unfolding long_chain_def RGBmatrixPanelCPLD3_def construct_mem_single[OF p] construct_fields Let_def
    by (simp add: heap_block_def)
qed

lemma pixel_addr_drawPixel: "pixel_addr (drawPixel x y c s) p a b = pixel_addr s p a b"
  unfolding pixel_addr_def spec_column_def drawPixel_fields ..

text \<open>
  Without the bound on the row the claim fails. On a chain 64 wide and 16416 high the pixel
  \<open>(0, 16384)\<close> has column \<open>512 * 64 = 32768\<close>, which the \<open>int16_t x\<close> turns into
  \<open>-32768\<close>: the write lands 32768 bytes before the back buffer and the pixel's own byte
  keeps its old red bit.
\<close>

theorem drawPixel_round_trip_counterexample:
  "initStatus long_chain = 0 \<and> depth long_chain = 1 \<and> in_bounds long_chain 0 16384
   \<and> mem (drawPixel 0 16384 0xFFFF long_chain)
       = (mem long_chain)(back_buffer long_chain - 32768 :=
            upd_byte (mem long_chain (back_buffer long_chain - 32768)) 0xC7 3 True True True)
   \<and> pixel_addr long_chain 0 (sint (0::u16)) (sint (16384::u16)) = back_buffer long_chain + 32768
   \<and> \<not> pixel_bit (drawPixel 0 16384 0xFFFF long_chain) 0 (sint (0::u16)) (sint (16384::u16)) Red
   \<and> bit (0xFFFF::u16) (chan_msb Red - 0)"
proof -
  have w: "to_int16 32768 = - 32768" by (simp add: to_int16_def)
  have m: "mem (drawPixel 0 16384 0xFFFF long_chain)
       = (mem long_chain)(536870912 - 32768 :=
            upd_byte (mem long_chain (536870912 - 32768)) 0xC7 3 True True True)"
    unfolding drawPixel_def Let_def long_chain_fields
    by (simp add: w put_planes_def put_plane_eq long_chain_fields Let_def)
  have a: "pixel_addr long_chain 0 (sint (0::u16)) (sint (16384::u16)) = 536870912 + 32768"
    by (simp add: pixel_addr_def spec_row_def spec_y_int_def upper_half_def spec_column_def
        long_chain_fields)
  have b: "\<not> pixel_bit (drawPixel 0 16384 0xFFFF long_chain) 0 (sint (0::u16)) (sint (16384::u16)) Red"
    unfolding pixel_bit_def pixel_addr_drawPixel a m
    by (simp add: long_chain_mem half_shift_def upper_half_def spec_y_int_def)
  have i: "in_bounds long_chain 0 16384" by (simp add: in_bounds_def long_chain_fields)
  from m a b i show ?thesis by (simp add: long_chain_fields)
qed

end
